theory Spec2Isabelle
  imports Main "HOL-Library.Word" "HOL-Library.Multiset"
begin

unbundle bit_operations_syntax

section \<open>Machine types, pointers and outcomes\<close>

text \<open>
  The compiler is C++ (\<^verbatim>\<open>src/src/compiler.cpp\<close>). \<^verbatim>\<open>unsigned\<close> and \<^verbatim>\<open>int\<close> are 32-bit
  words (\<open>+\<close> and \<open>-\<close> wrap; \<open>sint\<close> reads an \<^verbatim>\<open>int\<close>), \<^verbatim>\<open>uint64_t\<close> and \<^verbatim>\<open>int64_t\<close> are
  64-bit words. Every object lives in the arena and is never freed, so a pointer is an
  index into a store of the context (a total function from indexes to objects); a pointer
  that may be null is an \<open>option\<close>.
\<close>

type_synonym u8 = "8 word"
type_synonym u32 = "32 word"
type_synonym u64 = "64 word"
type_synonym int32 = "32 word"
type_synonym int64 = "64 word"

type_synonym vid = nat \<comment> \<open>\<^verbatim>\<open>Value*\<close>\<close>
type_synonym sid = nat \<comment> \<open>\<^verbatim>\<open>Site*\<close>\<close>
type_synonym gid = nat \<comment> \<open>\<^verbatim>\<open>Register*\<close>\<close>
type_synonym eid = nat \<comment> \<open>\<^verbatim>\<open>Event*\<close>\<close>
type_synonym rdid = nat \<comment> \<open>\<^verbatim>\<open>Read*\<close>\<close>

text \<open>
  A call either returns (\<open>Ok\<close>), ends the process through \<^verbatim>\<open>abort(c)\<close>, a failed
  \<^verbatim>\<open>expect\<close> or a failed \<^verbatim>\<open>assert\<close> of the debug build (\<open>Abort\<close>), does something C++ leaves
  undefined such as reading through a null pointer (\<open>Fault\<close>), or never returns
  (\<open>Diverges\<close>).
\<close>

datatype 'a result = Ok 'a | Abort | Fault | Diverges

definition bindR :: "'a result \<Rightarrow> ('a \<Rightarrow> 'b result) \<Rightarrow> 'b result" where
  "bindR m f = (case m of Ok x \<Rightarrow> f x | Abort \<Rightarrow> Abort | Fault \<Rightarrow> Fault | Diverges \<Rightarrow> Diverges)"

definition assertR :: "bool \<Rightarrow> unit result" where
  "assertR b = (if b then Ok () else Abort)"

definition NoRegister :: int32 where
  "NoRegister = -1"

definition AnyFrameIndex :: int32 where
  "AnyFrameIndex = -2"

definition NoFrameIndex :: int32 where
  "NoFrameIndex = -1"

datatype ConstantCompare = CompareNone | CompareLess | CompareGreater | CompareEqual

datatype Pass = ScanPass | CompilePass

text \<open>
  Modelled from the spec: \<^verbatim>\<open>OperandType\<close> is declared in \<^verbatim>\<open>assembler.h\<close>, which is not
  under src/. The four kinds are the spec's site kinds, in the order the type masks
  \<^verbatim>\<open>1 << ConstantOperand\<close> ... \<^verbatim>\<open>1 << MemoryOperand\<close> number them.
\<close>

datatype OperandType = ConstantOperand | AddressOperand | RegisterOperand | MemoryOperand

text \<open>
  Modelled from the spec: the operation codes are declared in \<^verbatim>\<open>assembler.h\<close>; these are
  the ones \<^verbatim>\<open>compiler.cpp\<close> names in the code the model covers.
\<close>

datatype NullaryOperation = Return

datatype UnaryOperation =
    Call | AlignedCall | Jump
  | JumpIfLess | JumpIfGreater | JumpIfLessOrEqual | JumpIfGreaterOrEqual
  | JumpIfEqual | JumpIfNotEqual

datatype BinaryOperation = Move | MoveZ | Compare | Negate | Swap

fun operandBit :: "OperandType \<Rightarrow> nat" where
  "operandBit ConstantOperand = 0"
| "operandBit AddressOperand = 1"
| "operandBit RegisterOperand = 2"
| "operandBit MemoryOperand = 3"

text \<open>
  Modelled from the spec: the architecture object of the assembler (section 6 of the spec;
  \<^verbatim>\<open>Assembler::Architecture\<close> of \<^verbatim>\<open>assembler.h\<close>) and the word size \<^verbatim>\<open>BytesPerWord\<close>
  of \<^verbatim>\<open>common.h\<close> are parameters of the model.
\<close>

record Architecture =
  registerCount :: u32
  arch_reserved :: "nat \<Rightarrow> bool"
  arch_stack :: int32
  arch_thread :: int32
  returnLow :: int32
  returnHigh :: int32
  argumentRegisterCount :: u32
  argumentRegister :: "nat \<Rightarrow> int32"
  frameHeaderSize :: u32
  frameFooterSize :: u32
  condensedAddressing :: bool
  BytesPerWord :: u32

section \<open>Frame indexes and read constraints\<close>

definition intersectFrameIndexes :: "int32 \<Rightarrow> int32 \<Rightarrow> int32" where
  "intersectFrameIndexes a b =
     (if a = NoFrameIndex \<or> b = NoFrameIndex then NoFrameIndex
      else if a = AnyFrameIndex then b
      else if b = AnyFrameIndex then a
      else if a = b then a
      else NoFrameIndex)"

text \<open>
  The constraint fields of a \<^verbatim>\<open>SingleRead\<close>, and the three in/out parameters of
  \<^verbatim>\<open>Read::intersect\<close> as a record of the same shape.
\<close>

record Constraint =
  typeMaskOf :: u8
  registerMaskOf :: u64
  frameIndexOf :: int32

definition SingleRead_intersect :: "Constraint \<Rightarrow> Constraint \<Rightarrow> bool \<times> Constraint" where
  "SingleRead_intersect this p =
     (True,
      \<lparr> typeMaskOf = typeMaskOf p AND typeMaskOf this,
        registerMaskOf = registerMaskOf p AND registerMaskOf this,
        frameIndexOf = intersectFrameIndexes (frameIndexOf p) (frameIndexOf this) \<rparr>)"

text \<open>The intersection law as section 4.D of the spec words it, to compare with the code.\<close>

definition spec_frameIndex :: "int32 \<Rightarrow> int32 \<Rightarrow> int32" where
  "spec_frameIndex a b =
     (if a = NoFrameIndex \<or> b = NoFrameIndex then NoFrameIndex
      else if a = AnyFrameIndex \<or> b = AnyFrameIndex
        then (if a = AnyFrameIndex then b else a)
      else if a = b then a
      else NoFrameIndex)"

section \<open>Promises\<close>

text \<open>
  \<^verbatim>\<open>ResolvedPromise\<close> and the promise \<^verbatim>\<open>Assembler::offset()\<close> returns are declared outside
  src/: a \<open>ResolvedPromise\<close> always has a value, an \<open>OffsetPromise\<close> has one once the
  assembler resolved its block (\<open>None\<close> before; reading it then is taken to abort).
  \<^verbatim>\<open>CodePromise::offset\<close> is a \<^verbatim>\<open>Promise*\<close> that may be null.
\<close>

datatype Promise =
    ResolvedPromise int64
  | OffsetPromise "int64 option"
  | PoolPromise int32
  | CodePromise "Promise option"
  | IpPromise int32

record LogicalInstruction =
  li_machineOffset :: "Promise option"
  li_index :: int32

section \<open>Resources, values and the context\<close>

record Register =
  reg_value :: "vid option"
  reg_site :: "sid option"
  reg_number :: int32
  reg_size :: u32
  refCount :: u32
  freezeCount :: u32
  reserved :: bool

definition Register_new :: "int32 \<Rightarrow> Register" where
  "Register_new n =
     \<lparr> reg_value = None, reg_site = None, reg_number = n, reg_size = 0,
       refCount = 0, freezeCount = 0, reserved = False \<rparr>"

record FrameResource =
  fr_value :: "vid option"
  fr_site :: "sid option"
  fr_size :: u32

text \<open>
  The four site classes. A \<open>RegisterSite\<close> holds its mask and the registers \<^verbatim>\<open>low\<close> and
  \<^verbatim>\<open>high\<close> (null until acquired); its cache \<^verbatim>\<open>register_\<close> of their numbers is refreshed by
  \<^verbatim>\<open>sync\<close> before every use the model has, so the model reads the numbers from the
  registers. A \<open>MemorySite\<close> holds \<^verbatim>\<open>base\<close>, \<^verbatim>\<open>index\<close> and the assembler operand \<^verbatim>\<open>value\<close>
  (base number, offset, index number, scale), which \<^verbatim>\<open>sync\<close> updates in place.
\<close>

record Memory =
  m_base :: int32
  m_offset :: int32
  m_index :: int32
  m_scale :: u32

datatype Site =
    ConstantSite Promise
  | AddressSite Promise
  | RegisterSite u64 "gid option" "gid option"
  | MemorySite "gid option" "gid option" Memory

text \<open>
  The three read classes. A \<open>SingleRead\<close> has its link \<^verbatim>\<open>next_\<close> and its constraint; a
  \<open>MultiRead\<close> the cells \<^verbatim>\<open>reads\<close> ... \<^verbatim>\<open>lastRead\<close>, the cells \<^verbatim>\<open>firstTarget\<close> ...
  \<^verbatim>\<open>lastTarget\<close> and the flag \<^verbatim>\<open>visited\<close>; a \<open>StubRead\<close> the link \<^verbatim>\<open>next_\<close>, the read it
  stands for and \<^verbatim>\<open>visited\<close>. The link \<^verbatim>\<open>eventNext\<close> is the order of the event's list of reads.
\<close>

datatype ReadBody =
    SingleRead "rdid option" Constraint
  | MultiRead "rdid list" "rdid option list" bool
  | StubRead "rdid option" "rdid option" bool

record Read =
  rd_value :: "vid option"
  rd_event :: "eid option"
  rd_size :: u32
  rd_body :: ReadBody

text \<open>
  A \<^verbatim>\<open>Value\<close>: \<open>v_sites\<close> is the linked list \<^verbatim>\<open>v->sites\<close>, \<^verbatim>\<open>s->next\<close>, ... (head first),
  \<open>buddy\<close> the next value of its buddy ring.
\<close>

record Value =
  v_reads :: "rdid option"
  v_lastRead :: "rdid option"
  v_sites :: "sid list"
  v_source :: "sid option"
  v_target :: "sid option"
  buddy :: vid
  v_local :: bool

definition Value_new :: "vid \<Rightarrow> sid option \<Rightarrow> sid option \<Rightarrow> Value" where
  "Value_new this site target =
     \<lparr> v_reads = None, v_lastRead = None,
       v_sites = (case site of None \<Rightarrow> [] | Some s \<Rightarrow> [s]),
       v_source = None, v_target = target, buddy = this, v_local = False \<rparr>"

text \<open>
  The operand stack is the linked list of \<^verbatim>\<open>Stack\<close> elements from the top down; the
  locals are the array \<^verbatim>\<open>Local[localFootprint]\<close>.
\<close>

record StackElement =
  s_index :: u32
  s_sizeInWords :: u32
  s_paddingInWords :: u32
  s_value :: vid

record Local =
  l_value :: "vid option"
  l_sizeInBytes :: u32

text \<open>
  What the compiler hands to the assembler: \<open>code c\<close> lists the calls of
  \<^verbatim>\<open>c->assembler->apply\<close>, \<^verbatim>\<open>popFrame\<close> and \<^verbatim>\<open>allocateFrame\<close> in order. The assembler itself
  (and what it calls back) is outside src/.
\<close>

datatype Operand =
    ConstantOp Promise
  | AddressOp Promise
  | RegisterOp int32 int32
  | MemoryOp Memory

datatype Instruction =
    Apply0 NullaryOperation
  | Apply1 UnaryOperation u32 Operand
  | Apply2 BinaryOperation u32 Operand u32 Operand
  | PopFrame
  | AllocateFrame u32

text \<open>
  The context. Beside the fields of \<^verbatim>\<open>class Context\<close> it carries the arena: one store per
  class of object, with the number of objects allocated so far.
\<close>

record Context =
  arch :: Architecture
  c_stack :: "StackElement list"
  c_locals :: "Local list"
  registers :: "gid list"
  frameResources :: "FrameResource list"
  logicalCode :: "LogicalInstruction option list"
  machineCode :: u64
  c_logicalIp :: int32
  parameterFootprint :: u32
  localFootprint :: u32
  machineCodeSize :: u32
  alignedFrameSize :: u32
  availableRegisterCount :: u32
  constantCompare :: ConstantCompare
  pass :: Pass
  registerStore :: "gid \<Rightarrow> Register"
  valueStore :: "vid \<Rightarrow> Value"
  siteStore :: "sid \<Rightarrow> Site"
  readStore :: "rdid \<Rightarrow> Read"
  valueCount :: nat
  siteCount :: nat
  readCount :: nat
  code :: "Instruction list"

subsection \<open>Promise resolution\<close>

text \<open>
  Modelled from the spec: \<^verbatim>\<open>pad\<close> is declared in \<^verbatim>\<open>common.h\<close> (not under src/); it rounds a
  size up to the next multiple of the word size ("padded to word alignment").
\<close>

definition pad :: "Context \<Rightarrow> u32 \<Rightarrow> u32" where
  "pad c n = (n + (BytesPerWord (arch c) - 1)) AND NOT (BytesPerWord (arch c) - 1)"

fun Promise_resolved :: "Context \<Rightarrow> Promise \<Rightarrow> bool" where
  "Promise_resolved c (ResolvedPromise v) = True"
| "Promise_resolved c (OffsetPromise ov) = (ov \<noteq> None)"
| "Promise_resolved c (PoolPromise key) = (machineCode c \<noteq> 0)"
| "Promise_resolved c (CodePromise offset) =
     (machineCode c \<noteq> 0 \<and>
      (case offset of None \<Rightarrow> False | Some p \<Rightarrow> Promise_resolved c p))"
| "Promise_resolved c (IpPromise logicalIp) = (machineCode c \<noteq> 0)"

text \<open>
  \<^verbatim>\<open>machineOffset(c, logicalIp)\<close> reads \<^verbatim>\<open>c->logicalCode[logicalIp]->machineOffset->value()\<close>
  and truncates it to \<^verbatim>\<open>unsigned\<close>; the machine offset of a logical instruction is only
  ever assigned \<^verbatim>\<open>a->offset()\<close>, an \<open>OffsetPromise\<close>, so any other promise there is outside
  the model (\<open>Fault\<close>).
\<close>

definition machineOffset :: "Context \<Rightarrow> int32 \<Rightarrow> u32 result" where
  "machineOffset c logicalIp =
     (if sint logicalIp < 0 \<or> int (length (logicalCode c)) \<le> sint logicalIp then Fault
      else case logicalCode c ! nat (sint logicalIp) of
             None \<Rightarrow> Fault
           | Some i \<Rightarrow>
               (case li_machineOffset i of
                  Some (OffsetPromise (Some v)) \<Rightarrow> Ok (ucast v)
                | Some (OffsetPromise None) \<Rightarrow> Abort
                | Some (ResolvedPromise v) \<Rightarrow> Ok (ucast v)
                | _ \<Rightarrow> Fault))"

fun Promise_value :: "Context \<Rightarrow> Promise \<Rightarrow> int64 result" where
  "Promise_value c (ResolvedPromise v) = Ok v"
| "Promise_value c (OffsetPromise ov) = (case ov of Some v \<Rightarrow> Ok v | None \<Rightarrow> Abort)"
| "Promise_value c (PoolPromise key) =
     (if Promise_resolved c (PoolPromise key)
      then Ok (machineCode c + ucast (pad c (machineCodeSize c))
               + ucast (key * BytesPerWord (arch c)))
      else Abort)"
| "Promise_value c (CodePromise offset) =
     (if Promise_resolved c (CodePromise offset)
      then (case offset of
              None \<Rightarrow> Fault
            | Some p \<Rightarrow> bindR (Promise_value c p) (\<lambda>v. Ok (machineCode c + v)))
      else Abort)"
| "Promise_value c (IpPromise logicalIp) =
     (if Promise_resolved c (IpPromise logicalIp)
      then bindR (machineOffset c logicalIp) (\<lambda>m. Ok (machineCode c + ucast m))
      else Abort)"

subsection \<open>The constructor of the context, freeze and thaw\<close>

text \<open>
  \<^verbatim>\<open>Context::Context\<close>: the register array holds one fresh \<^verbatim>\<open>Register(i)\<close> per
  architectural register; the loop body marks the reserved ones and counts them off
  \<open>availableRegisterCount\<close>.
\<close>

definition Context_loop_body :: "nat \<Rightarrow> Context \<Rightarrow> Context" where
  "Context_loop_body i c =
     (let c1 = c \<lparr> registers := registers c @ [i],
                   registerStore := (registerStore c)(i := Register_new (of_nat i)) \<rparr>
      in if arch_reserved (arch c) i
         then c1 \<lparr> registerStore := (registerStore c1)(i := (registerStore c1 i)\<lparr> reserved := True \<rparr>),
                   availableRegisterCount := availableRegisterCount c1 - 1 \<rparr>
         else c1)"

definition Context_new :: "Architecture \<Rightarrow> Context" where
  "Context_new a =
     fold Context_loop_body [0 ..< unat (registerCount a)]
       \<lparr> arch = a,
         c_stack = [],
         c_locals = [],
         registers = [],
         frameResources = [],
         logicalCode = [],
         machineCode = 0,
         c_logicalIp = -1,
         parameterFootprint = 0,
         localFootprint = 0,
         machineCodeSize = 0,
         alignedFrameSize = 0,
         availableRegisterCount = registerCount a,
         constantCompare = CompareNone,
         pass = ScanPass,
         registerStore = (\<lambda>i. Register_new 0),
         valueStore = (\<lambda>v. Value_new v None None),
         siteStore = (\<lambda>s. RegisterSite 0 None None),
         readStore = (\<lambda>r. \<lparr> rd_value = None, rd_event = None, rd_size = 0,
                              rd_body = SingleRead None
                                \<lparr> typeMaskOf = 0, registerMaskOf = 0, frameIndexOf = NoFrameIndex \<rparr> \<rparr>),
         valueCount = 0,
         siteCount = 0,
         readCount = 0,
         code = [] \<rparr>"

definition freeze :: "Context \<Rightarrow> gid \<Rightarrow> Context result" where
  "freeze c r =
     bindR (assertR (availableRegisterCount c \<noteq> 0)) (\<lambda>_.
       Ok (c \<lparr> registerStore :=
                 (registerStore c)(r := (registerStore c r)\<lparr> freezeCount := freezeCount (registerStore c r) + 1 \<rparr>),
               availableRegisterCount := availableRegisterCount c - 1 \<rparr>))"

definition thaw :: "Context \<Rightarrow> gid \<Rightarrow> Context result" where
  "thaw c r =
     bindR (assertR (freezeCount (registerStore c r) \<noteq> 0)) (\<lambda>_.
       Ok (c \<lparr> registerStore :=
                 (registerStore c)(r := (registerStore c r)\<lparr> freezeCount := freezeCount (registerStore c r) - 1 \<rparr>),
               availableRegisterCount := availableRegisterCount c + 1 \<rparr>))"

text \<open>
  The equation of the register count, in the 32-bit unsigned arithmetic of the fields:
  the registers are the objects the array \<^verbatim>\<open>c->registers\<close> points to.
\<close>

definition reservedCount :: "Context \<Rightarrow> nat" where
  "reservedCount c = length (filter (\<lambda>r. reserved (registerStore c r)) (registers c))"

definition freezeSum :: "Context \<Rightarrow> u32" where
  "freezeSum c = sum_list (map (\<lambda>r. freezeCount (registerStore c r)) (registers c))"

definition countEquation :: "Context \<Rightarrow> bool" where
  "countEquation c =
     (length (registers c) = unat (registerCount (arch c)) \<and> distinct (registers c) \<and>
      availableRegisterCount c
        = registerCount (arch c) - of_nat (reservedCount c) - freezeSum c)"



section \<open>Register allocation: cost and choice\<close>

text \<open>
  \<^verbatim>\<open>findSite\<close> walks the value's own site list; \<^verbatim>\<open>used\<close>, \<^verbatim>\<open>usedExclusively\<close> and
  \<^verbatim>\<open>registerCost\<close> follow the source line by line. In \<^verbatim>\<open>pickRegister\<close> the loop counter
  \<open>Suc i\<close> stands for the source's \<open>i\<close> running from \<^verbatim>\<open>registerCount() - 1\<close> down to 0;
  \<^verbatim>\<open>1 << i\<close> is undefined in C++ for \<open>i\<close> beyond the 32 bits of the mask, so more than 32
  registers are a \<open>Fault\<close>; \<^verbatim>\<open>expect(c, register_)\<close> aborts on a null result.
\<close>

fun findSite_loop :: "sid list \<Rightarrow> sid option \<Rightarrow> bool" where
  "findSite_loop [] site = False"
| "findSite_loop (s # ss) site = (if Some s = site then True else findSite_loop ss site)"

definition findSite :: "Context \<Rightarrow> vid \<Rightarrow> sid option \<Rightarrow> bool" where
  "findSite c v site = findSite_loop (v_sites (valueStore c v)) site"

definition used :: "Context \<Rightarrow> gid \<Rightarrow> bool" where
  "used c r =
     (case reg_value (registerStore c r) of
        None \<Rightarrow> False
      | Some v \<Rightarrow> findSite c v (reg_site (registerStore c r)))"

definition usedExclusively :: "Context \<Rightarrow> gid \<Rightarrow> bool" where
  "usedExclusively c r =
     (used c r \<and>
      (case reg_value (registerStore c r) of
         None \<Rightarrow> False
       | Some v \<Rightarrow> (case v_sites (valueStore c v) of [] \<Rightarrow> False | s # rest \<Rightarrow> rest = [])))"

definition registerCost :: "Context \<Rightarrow> gid \<Rightarrow> u32" where
  "registerCost c r =
     (if reserved (registerStore c r) \<or> freezeCount (registerStore c r) \<noteq> 0 then 6
      else
        let cost = 0;
            cost = (if used c r
                    then (let cost = cost + 1 in if usedExclusively c r then cost + 2 else cost)
                    else cost);
            cost = (if refCount (registerStore c r) \<noteq> 0 then cost + 2 else cost)
        in cost)"

fun pickRegister_loop :: "Context \<Rightarrow> u32 \<Rightarrow> nat \<Rightarrow> gid option \<Rightarrow> u32 \<Rightarrow> gid option" where
  "pickRegister_loop c rmask 0 register' cost = register'"
| "pickRegister_loop c rmask (Suc i) register' cost =
     (if (push_bit i 1 AND rmask) \<noteq> 0
      then let r = registers c ! i in
           if push_bit i 1 = rmask then Some r
           else let myCost = registerCost c r in
                if myCost < cost then pickRegister_loop c rmask i (Some r) myCost
                else pickRegister_loop c rmask i register' cost
      else pickRegister_loop c rmask i register' cost)"

definition pickRegister :: "Context \<Rightarrow> u32 \<Rightarrow> gid result" where
  "pickRegister c rmask =
     (if 32 < unat (registerCount (arch c)) then Fault
      else case pickRegister_loop c rmask (unat (registerCount (arch c))) None 5 of
             None \<Rightarrow> Abort
           | Some r \<Rightarrow> Ok r)"

text \<open>The cost formula as section 4.C of the spec words it, to compare with the code.\<close>

definition spec_cost :: "Context \<Rightarrow> gid \<Rightarrow> u32" where
  "spec_cost c r =
     (if reserved (registerStore c r) \<or> freezeCount (registerStore c r) \<noteq> 0 then 6 else 0)
     + (if used c r then 1 else 0)
     + (if usedExclusively c r then 2 else 0)
     + (if refCount (registerStore c r) \<noteq> 0 then 2 else 0)"

text \<open>
  The loop invariant of \<^verbatim>\<open>pickRegister\<close>: after the candidates \<open>n \<le> j < K\<close> have been
  seen, \<open>reg\<close> and \<open>cost\<close> hold the cheapest of them below the threshold 5 (the highest
  numbered among equals), or nothing when none is below it.
\<close>

definition bestAbove :: "Context \<Rightarrow> u32 \<Rightarrow> nat \<Rightarrow> nat \<Rightarrow> gid option \<Rightarrow> u32 \<Rightarrow> bool" where
  "bestAbove c rmask K n reg cost =
     (case reg of
        None \<Rightarrow> cost = 5 \<and> (\<forall>j. n \<le> j \<and> j < K \<and> bit rmask j \<longrightarrow> 5 \<le> registerCost c (registers c ! j))
      | Some r \<Rightarrow>
          (\<exists>i. n \<le> i \<and> i < K \<and> bit rmask i \<and> r = registers c ! i \<and>
               registerCost c (registers c ! i) = cost \<and> cost < 5 \<and>
               (\<forall>j. n \<le> j \<and> j < K \<and> bit rmask j \<longrightarrow>
                    cost \<le> registerCost c (registers c ! j) \<and>
                    (registerCost c (registers c ! j) = cost \<longrightarrow> j \<le> i))))"

section \<open>Frame slots\<close>

text \<open>
  Modelled from the spec: \<^verbatim>\<open>ceiling\<close> is declared in \<^verbatim>\<open>common.h\<close> (not under src/); it
  divides rounding up, here a size in bytes into words.
\<close>

definition ceilingU :: "u32 \<Rightarrow> u32 \<Rightarrow> u32" where
  "ceilingU n d = (n + d - 1) div d"

definition frameIndex :: "Context \<Rightarrow> u32 \<Rightarrow> u32 \<Rightarrow> int32" where
  "frameIndex c index words = alignedFrameSize c + parameterFootprint c - index - words"

definition frameIndexToOffset :: "Context \<Rightarrow> u32 \<Rightarrow> u32" where
  "frameIndexToOffset c fi =
     (if alignedFrameSize c \<le> fi
      then fi + frameFooterSize (arch c) * 2 + frameHeaderSize (arch c)
      else fi + frameFooterSize (arch c)) * BytesPerWord (arch c)"

definition offsetToFrameIndex :: "Context \<Rightarrow> u32 \<Rightarrow> u32" where
  "offsetToFrameIndex c offset =
     (let normalizedOffset = offset div BytesPerWord (arch c) in
      if alignedFrameSize c + frameFooterSize (arch c) \<le> normalizedOffset
      then normalizedOffset - frameFooterSize (arch c) * 2 - frameHeaderSize (arch c)
      else normalizedOffset - frameFooterSize (arch c))"

section \<open>Sites\<close>

text \<open>Allocation in the arena: the new object gets the next index of its store.\<close>

definition newSite :: "Context \<Rightarrow> Site \<Rightarrow> sid \<times> Context" where
  "newSite c s =
     (siteCount c, c \<lparr> siteStore := (siteStore c)(siteCount c := s), siteCount := Suc (siteCount c) \<rparr>)"

definition constantSite :: "Context \<Rightarrow> Promise \<Rightarrow> sid \<times> Context" where
  "constantSite c p = newSite c (ConstantSite p)"

definition addressSite :: "Context \<Rightarrow> Promise \<Rightarrow> sid \<times> Context" where
  "addressSite c p = newSite c (AddressSite p)"

definition freeRegisterSite :: "Context \<Rightarrow> u64 \<Rightarrow> sid \<times> Context" where
  "freeRegisterSite c rmask = newSite c (RegisterSite rmask None None)"

definition registerAt :: "Context \<Rightarrow> int32 \<Rightarrow> gid result" where
  "registerAt c n =
     (if 0 \<le> sint n \<and> nat (sint n) < length (registers c) then Ok (registers c ! nat (sint n))
      else Fault)"


definition memorySite :: "Context \<Rightarrow> int32 \<Rightarrow> int32 \<Rightarrow> int32 \<Rightarrow> u32 \<Rightarrow> sid \<times> Context" where
  "memorySite c base offset index scale =
     newSite c (MemorySite None None
       \<lparr> m_base = base, m_offset = offset, m_index = index, m_scale = scale \<rparr>)"

definition frameSite :: "Context \<Rightarrow> int32 \<Rightarrow> (sid \<times> Context) result" where
  "frameSite c fi =
     bindR (assertR (0 \<le> sint fi)) (\<lambda>_.
       Ok (memorySite c (arch_stack (arch c)) (frameIndexToOffset c fi) NoRegister 1))"

fun Site_type :: "Site \<Rightarrow> OperandType" where
  "Site_type (ConstantSite p) = ConstantOperand"
| "Site_type (AddressSite p) = AddressOperand"
| "Site_type (RegisterSite m l h) = RegisterOperand"
| "Site_type (MemorySite b i v) = MemoryOperand"

text \<open>
  \<^verbatim>\<open>sync\<close>: a register site asserts that it is acquired; a memory site asserts it too and
  copies the numbers of its base and index registers into its operand.
\<close>

definition Site_sync :: "Context \<Rightarrow> sid \<Rightarrow> Context result" where
  "Site_sync c s =
     (case siteStore c s of
        RegisterSite m low high \<Rightarrow> bindR (assertR (low \<noteq> None)) (\<lambda>_. Ok c)
      | MemorySite base index v \<Rightarrow>
          (case base of
             None \<Rightarrow> Abort
           | Some b \<Rightarrow>
               Ok (c \<lparr> siteStore := (siteStore c)(s := MemorySite base index
                     (v \<lparr> m_base := reg_number (registerStore c b),
                          m_index := (case index of None \<Rightarrow> NoRegister
                                      | Some i \<Rightarrow> reg_number (registerStore c i)) \<rparr>)) \<rparr>))
      | _ \<Rightarrow> Ok c)"

definition lowNumber :: "Context \<Rightarrow> gid option \<Rightarrow> int32" where
  "lowNumber c r = (case r of None \<Rightarrow> NoRegister | Some g \<Rightarrow> reg_number (registerStore c g))"

definition typeBit :: "u8 \<Rightarrow> OperandType \<Rightarrow> bool" where
  "typeBit tmask t = ((tmask AND push_bit (operandBit t) 1) \<noteq> 0)"

definition Site_copyCost :: "Context \<Rightarrow> sid \<Rightarrow> sid option \<Rightarrow> (u32 \<times> Context) result" where
  "Site_copyCost c this s =
     (case siteStore c this of
        ConstantSite p \<Rightarrow> Ok (if s = Some this then 0 else 1, c)
      | AddressSite p \<Rightarrow> Ok (if s = Some this then 0 else 3, c)
      | RegisterSite m low high \<Rightarrow>
          bindR (Site_sync c this) (\<lambda>c.
            Ok (if (case s of
                      None \<Rightarrow> False
                    | Some t \<Rightarrow>
                        this = t \<or>
                        (case siteStore c t of
                           RegisterSite tmsk tlo thi \<Rightarrow>
                             (tmsk AND push_bit (unat (lowNumber c low)) 1) \<noteq> 0 \<and>
                             (lowNumber c high = NoRegister \<or>
                              (tmsk AND push_bit (unat (lowNumber c high + 32)) 1) \<noteq> 0)
                         | _ \<Rightarrow> False))
                then 0 else 2, c))
      | MemorySite base index v0 \<Rightarrow>
          bindR (Site_sync c this) (\<lambda>c.
            Ok (if (case s of
                      None \<Rightarrow> False
                    | Some t \<Rightarrow>
                        this = t \<or>
                        (case (siteStore c t, siteStore c this) of
                           (MemorySite tb ti tv, MemorySite b i v) \<Rightarrow>
                             m_base tv = m_base v \<and> m_offset tv = m_offset v \<and>
                             m_index tv = m_index v \<and> m_scale tv = m_scale v
                         | _ \<Rightarrow> False))
                then 0 else 4, c)))"

definition Site_match ::
  "Context \<Rightarrow> sid \<Rightarrow> u8 \<Rightarrow> u64 \<Rightarrow> int32 \<Rightarrow> (bool \<times> Context) result" where
  "Site_match c this tmask rmask fi =
     (case siteStore c this of
        ConstantSite p \<Rightarrow> Ok (typeBit tmask ConstantOperand, c)
      | AddressSite p \<Rightarrow> Ok (typeBit tmask AddressOperand, c)
      | RegisterSite m low high \<Rightarrow>
          (if typeBit tmask RegisterOperand \<and> low \<noteq> None
           then bindR (Site_sync c this) (\<lambda>c.
                  Ok ((push_bit (unat (lowNumber c low)) 1 AND rmask) \<noteq> 0 \<and>
                      (lowNumber c high = NoRegister \<or>
                       (push_bit (unat (lowNumber c high + 32)) 1 AND rmask) \<noteq> 0), c))
           else Ok (False, c))
      | MemorySite base index v0 \<Rightarrow>
          (if typeBit tmask MemoryOperand
           then bindR (Site_sync c this) (\<lambda>c.
                  (case siteStore c this of
                     MemorySite b i v \<Rightarrow>
                       (if m_base v = arch_stack (arch c)
                        then bindR (assertR (m_index v = NoRegister)) (\<lambda>_.
                               Ok (fi = AnyFrameIndex \<or>
                                   (fi \<noteq> NoFrameIndex \<and> frameIndexToOffset c fi = m_offset v), c))
                        else Ok (True, c))
                   | _ \<Rightarrow> Fault))
           else Ok (False, c)))"

definition release :: "Context \<Rightarrow> gid \<Rightarrow> Context" where
  "release c r =
     c \<lparr> registerStore := (registerStore c)(r := (registerStore c r)
           \<lparr> reg_size := 0, reg_value := None, reg_site := None \<rparr>) \<rparr>"

definition increment :: "Context \<Rightarrow> int32 \<Rightarrow> (gid \<times> Context) result" where
  "increment c i =
     bindR (registerAt c i) (\<lambda>r.
       Ok (r, c \<lparr> registerStore := (registerStore c)(r := (registerStore c r)
                    \<lparr> refCount := refCount (registerStore c r) + 1 \<rparr>) \<rparr>))"

definition decrement :: "Context \<Rightarrow> gid \<Rightarrow> Context result" where
  "decrement c r =
     bindR (assertR (refCount (registerStore c r) \<noteq> 0)) (\<lambda>_.
       Ok (c \<lparr> registerStore := (registerStore c)(r := (registerStore c r)
                 \<lparr> refCount := refCount (registerStore c r) - 1 \<rparr>) \<rparr>))"

definition frameResourceAt :: "Context \<Rightarrow> int32 \<Rightarrow> (nat \<times> FrameResource) result" where
  "frameResourceAt c fi =
     bindR (assertR (0 \<le> sint fi)) (\<lambda>_.
     bindR (assertR (sint fi < sint (alignedFrameSize c + parameterFootprint c))) (\<lambda>_.
       if nat (sint fi) < length (frameResources c)
       then Ok (nat (sint fi), frameResources c ! nat (sint fi))
       else Fault))"

definition clearFrameResource :: "Context \<Rightarrow> nat \<Rightarrow> Context" where
  "clearFrameResource c i =
     c \<lparr> frameResources := (frameResources c)
           [i := \<lparr> fr_value = None, fr_site = None, fr_size = 0 \<rparr>] \<rparr>"

definition releaseFrameIndex :: "Context \<Rightarrow> int32 \<Rightarrow> bool \<Rightarrow> Context result" where
  "releaseFrameIndex c fi recurse =
     bindR (frameResourceAt c fi) (\<lambda>(i, r).
     bindR (if recurse \<and> BytesPerWord (arch c) < fr_size r
            then bindR (frameResourceAt c (fi + 1)) (\<lambda>(j, r'). Ok (clearFrameResource c j))
            else Ok c) (\<lambda>c.
       Ok (clearFrameResource c i)))"

definition Site_release :: "Context \<Rightarrow> sid \<Rightarrow> Context result" where
  "Site_release c this =
     (case siteStore c this of
        RegisterSite m low high \<Rightarrow>
          (case low of
             None \<Rightarrow> Abort
           | Some l \<Rightarrow>
               let c = release c l in
               Ok (case high of None \<Rightarrow> c | Some h \<Rightarrow> release c h))
      | MemorySite base index v \<Rightarrow>
          bindR (if m_base v = arch_stack (arch c)
                 then bindR (assertR (m_index v = NoRegister)) (\<lambda>_.
                        releaseFrameIndex c (offsetToFrameIndex c (m_offset v)) True)
                 else Ok c) (\<lambda>c.
          bindR (case base of None \<Rightarrow> Fault | Some b \<Rightarrow> decrement c b) (\<lambda>c.
            (case index of None \<Rightarrow> Ok c | Some i \<Rightarrow> decrement c i)))
      | _ \<Rightarrow> Ok c)"



definition Site_asAssemblerOperand :: "Context \<Rightarrow> sid \<Rightarrow> (Operand \<times> Context) result" where
  "Site_asAssemblerOperand c this =
     (case siteStore c this of
        ConstantSite p \<Rightarrow> Ok (ConstantOp p, c)
      | AddressSite p \<Rightarrow> Ok (AddressOp p, c)
      | RegisterSite m low high \<Rightarrow>
          bindR (Site_sync c this) (\<lambda>c. Ok (RegisterOp (lowNumber c low) (lowNumber c high), c))
      | MemorySite base index v0 \<Rightarrow>
          bindR (Site_sync c this) (\<lambda>c.
            (case siteStore c this of
               MemorySite b i v \<Rightarrow> Ok (MemoryOp v, c)
             | _ \<Rightarrow> Fault)))"

text \<open>The two \<^verbatim>\<open>apply\<close> helpers the model needs: they hand the operation to the assembler.\<close>

definition apply1 :: "Context \<Rightarrow> UnaryOperation \<Rightarrow> u32 \<Rightarrow> sid \<Rightarrow> Context result" where
  "apply1 c op s1Size s1 =
     bindR (Site_asAssemblerOperand c s1) (\<lambda>(o1, c).
       Ok (c \<lparr> code := code c @ [Apply1 op s1Size o1] \<rparr>))"

definition apply2 ::
  "Context \<Rightarrow> BinaryOperation \<Rightarrow> u32 \<Rightarrow> sid \<Rightarrow> u32 \<Rightarrow> sid \<Rightarrow> Context result" where
  "apply2 c op s1Size s1 s2Size s2 =
     bindR (Site_asAssemblerOperand c s1) (\<lambda>(o1, c).
     bindR (Site_asAssemblerOperand c s2) (\<lambda>(o2, c).
       Ok (c \<lparr> code := code c @ [Apply2 op s1Size o1 s2Size o2] \<rparr>)))"


section \<open>Site lists and buddy rings\<close>

definition siteBound :: "Context \<Rightarrow> nat" where
  "siteBound c = sum_list (map (\<lambda>v. length (v_sites (valueStore c v))) [0 ..< valueCount c])"

text \<open>
  A \<^verbatim>\<open>Site**\<close> of the iterator points at the link number \<open>k\<close> of the site list of a value:
  \<^verbatim>\<open>&(v->sites)\<close> is \<open>(v, 0)\<close>, and \<^verbatim>\<open>&((*p)->next)\<close> is one link further. What it points to
  is the site at that place, or null at the end of the list.
\<close>

type_synonym link = "vid \<times> nat"

definition linkTarget :: "Context \<Rightarrow> link \<Rightarrow> sid option" where
  "linkTarget c p =
     (if snd p < length (v_sites (valueStore c (fst p)))
      then Some (v_sites (valueStore c (fst p)) ! snd p) else None)"

record SiteIterator =
  originalValue :: vid
  currentValue :: vid
  it_next :: "link option"
  previous :: "link option"

text \<open>
  The loop of \<^verbatim>\<open>findNext\<close> walks the ring from \<^verbatim>\<open>currentValue->buddy\<close> until it is back at
  \<^verbatim>\<open>originalValue\<close>. A ring of allocated values closes within \<open>valueCount c\<close> steps, so a walk
  that is longer never ends: the bound of the loop is that count.
\<close>

fun findNext_loop :: "nat \<Rightarrow> Context \<Rightarrow> vid \<Rightarrow> vid \<Rightarrow> vid option result" where
  "findNext_loop 0 c orig v = Diverges"
| "findNext_loop (Suc n) c orig v =
     (if v = orig then Ok None
      else if v_sites (valueStore c v) \<noteq> [] then Ok (Some v)
      else findNext_loop n c orig (buddy (valueStore c v)))"

definition SiteIterator_findNext ::
  "Context \<Rightarrow> SiteIterator \<Rightarrow> link \<Rightarrow> (link option \<times> SiteIterator) result" where
  "SiteIterator_findNext c it p =
     (if linkTarget c p \<noteq> None then Ok (Some p, it)
      else bindR (findNext_loop (valueCount c) c (originalValue it)
                    (buddy (valueStore c (currentValue it)))) (\<lambda>found.
             case found of
               Some v \<Rightarrow> Ok (Some (v, 0), it \<lparr> currentValue := v \<rparr>)
             | None \<Rightarrow> Ok (None, it)))"

definition SiteIterator_new :: "Context \<Rightarrow> vid \<Rightarrow> SiteIterator result" where
  "SiteIterator_new c v =
     bindR (SiteIterator_findNext c
              \<lparr> originalValue = v, currentValue = v, it_next = None, previous = None \<rparr> (v, 0))
       (\<lambda>(n, it). Ok (it \<lparr> it_next := n \<rparr>))"

definition SiteIterator_hasMore :: "Context \<Rightarrow> SiteIterator \<Rightarrow> (bool \<times> SiteIterator) result" where
  "SiteIterator_hasMore c it =
     (case previous it of
        Some p \<Rightarrow>
          bindR (SiteIterator_findNext c it (fst p, Suc (snd p))) (\<lambda>(n, it).
            Ok (n \<noteq> None, it \<lparr> it_next := n, previous := None \<rparr>))
      | None \<Rightarrow> Ok (it_next it \<noteq> None, it))"

definition SiteIterator_next :: "Context \<Rightarrow> SiteIterator \<Rightarrow> (sid \<times> SiteIterator) result" where
  "SiteIterator_next c it =
     (case it_next it of
        None \<Rightarrow> Fault
      | Some p \<Rightarrow>
          (case linkTarget c p of
             None \<Rightarrow> Fault
           | Some s \<Rightarrow> Ok (s, it \<lparr> previous := it_next it \<rparr>)))"

definition unlinkSite :: "Context \<Rightarrow> link \<Rightarrow> Context" where
  "unlinkSite c p =
     c \<lparr> valueStore := (valueStore c)(fst p := (valueStore c (fst p))
           \<lparr> v_sites := take (snd p) (v_sites (valueStore c (fst p)))
                         @ drop (Suc (snd p)) (v_sites (valueStore c (fst p))) \<rparr>) \<rparr>"

definition SiteIterator_remove :: "Context \<Rightarrow> SiteIterator \<Rightarrow> (SiteIterator \<times> Context) result" where
  "SiteIterator_remove c it =
     (case previous it of
        None \<Rightarrow> Fault
      | Some p \<Rightarrow>
          (case linkTarget c p of
             None \<Rightarrow> Fault
           | Some s \<Rightarrow>
               bindR (Site_release c s) (\<lambda>c.
                 let c = unlinkSite c p in
                 bindR (SiteIterator_findNext c it p) (\<lambda>(n, it).
                   Ok (it \<lparr> it_next := n, previous := None \<rparr>, c)))))"



fun removeSite_loop :: "nat \<Rightarrow> Context \<Rightarrow> SiteIterator \<Rightarrow> sid \<Rightarrow> Context result" where
  "removeSite_loop 0 c it s = Diverges"
| "removeSite_loop (Suc n) c it s =
     bindR (SiteIterator_hasMore c it) (\<lambda>(more, it).
       if more
       then bindR (SiteIterator_next c it) (\<lambda>(s', it).
              if s = s' then bindR (SiteIterator_remove c it) (\<lambda>(it, c). Ok c)
              else removeSite_loop n c it s)
       else Ok c)"

definition removeSite :: "Context \<Rightarrow> vid \<Rightarrow> sid \<Rightarrow> Context result" where
  "removeSite c v s =
     bindR (SiteIterator_new c v) (\<lambda>it. removeSite_loop (Suc (siteBound c)) c it s)"

fun clearSites_loop :: "Context \<Rightarrow> sid list \<Rightarrow> Context result" where
  "clearSites_loop c [] = Ok c"
| "clearSites_loop c (s # ss) = bindR (Site_release c s) (\<lambda>c. clearSites_loop c ss)"

definition clearSites :: "Context \<Rightarrow> vid \<Rightarrow> Context result" where
  "clearSites c v =
     bindR (clearSites_loop c (v_sites (valueStore c v))) (\<lambda>c.
       Ok (c \<lparr> valueStore := (valueStore c)(v := (valueStore c v)\<lparr> v_sites := [] \<rparr>) \<rparr>))"





fun findConstantSite_loop :: "Context \<Rightarrow> sid list \<Rightarrow> sid option" where
  "findConstantSite_loop c [] = None"
| "findConstantSite_loop c (s # ss) =
     (if Site_type (siteStore c s) = ConstantOperand then Some s
      else findConstantSite_loop c ss)"

definition findConstantSite :: "Context \<Rightarrow> vid \<Rightarrow> sid option" where
  "findConstantSite c v = findConstantSite_loop c (v_sites (valueStore c v))"









definition accepts :: "Context \<Rightarrow> sid \<Rightarrow> u8 \<Rightarrow> u64 \<Rightarrow> int32 \<Rightarrow> bool" where
  "accepts c s tmask rmask fi =
     (case Site_match c s tmask rmask fi of Ok (m, c') \<Rightarrow> m | _ \<Rightarrow> False)"


section \<open>Reads\<close>

type_synonym ReadStore = "rdid \<Rightarrow> Read"

text \<open>
  \<^verbatim>\<open>Read::valid\<close>. A \<open>MultiRead\<close> is valid when one of its cells is; it drops the cells that
  are not, and its flag \<^verbatim>\<open>visited\<close> ends a traversal that comes back to it. Every nested
  call marks one more read, so the depth is bounded by the number of reads.
\<close>

fun Read_valid :: "nat \<Rightarrow> ReadStore \<Rightarrow> rdid \<Rightarrow> (bool \<times> ReadStore) result"
and MultiRead_valid_cells ::
  "nat \<Rightarrow> ReadStore \<Rightarrow> rdid list \<Rightarrow> (bool \<times> rdid list \<times> ReadStore) result" where
  "Read_valid 0 st r = Diverges"
| "Read_valid (Suc n) st r =
     (case rd_body (st r) of
        SingleRead nxt k \<Rightarrow> Ok (True, st)
      | StubRead nxt rd visited \<Rightarrow> Ok (True, st)
      | MultiRead cells targets visited \<Rightarrow>
          if visited then Ok (False, st)
          else bindR (MultiRead_valid_cells n
                        (st(r := (st r)\<lparr> rd_body := MultiRead cells targets True \<rparr>)) cells)
                 (\<lambda>(result, kept, st).
                    Ok (result, st(r := (st r)\<lparr> rd_body := MultiRead kept targets False \<rparr>))))"
| "MultiRead_valid_cells n st [] = Ok (False, [], st)"
| "MultiRead_valid_cells n st (x # xs) =
     bindR (Read_valid n st x) (\<lambda>(ok, st).
     bindR (MultiRead_valid_cells n st xs) (\<lambda>(result, kept, st).
       Ok (ok \<or> result, (if ok then x # kept else kept), st)))"

text \<open>
  \<^verbatim>\<open>Read::intersect\<close>: a \<open>SingleRead\<close> narrows the constraint; a \<open>MultiRead\<close> lets every
  cell narrow it and drops the cells that report invalid; a \<open>StubRead\<close> defers to the read
  it stands for, if any, and forgets it when it reports invalid.
\<close>

fun Read_intersect ::
  "nat \<Rightarrow> ReadStore \<Rightarrow> rdid \<Rightarrow> Constraint \<Rightarrow> (bool \<times> Constraint \<times> ReadStore) result"
and MultiRead_intersect_cells ::
  "nat \<Rightarrow> ReadStore \<Rightarrow> rdid list \<Rightarrow> Constraint
   \<Rightarrow> (bool \<times> rdid list \<times> Constraint \<times> ReadStore) result" where
  "Read_intersect 0 st r p = Diverges"
| "Read_intersect (Suc n) st r p =
     (case rd_body (st r) of
        SingleRead nxt k \<Rightarrow> Ok (True, snd (SingleRead_intersect k p), st)
      | MultiRead cells targets visited \<Rightarrow>
          if visited then Ok (False, p, st)
          else bindR (MultiRead_intersect_cells n
                        (st(r := (st r)\<lparr> rd_body := MultiRead cells targets True \<rparr>)) cells p)
                 (\<lambda>(result, kept, p, st).
                    Ok (result, p, st(r := (st r)\<lparr> rd_body := MultiRead kept targets False \<rparr>)))
      | StubRead nxt rd visited \<Rightarrow>
          if visited then Ok (True, p, st)
          else (case rd of
                  None \<Rightarrow> Ok (True, p, st)
                | Some q \<Rightarrow>
                    bindR (Read_intersect n
                             (st(r := (st r)\<lparr> rd_body := StubRead nxt rd True \<rparr>)) q p)
                      (\<lambda>(ok, p, st).
                         Ok (True, p,
                             st(r := (st r)\<lparr> rd_body :=
                                  StubRead nxt (if ok then rd else None) False \<rparr>)))))"
| "MultiRead_intersect_cells n st [] p = Ok (False, [], p, st)"
| "MultiRead_intersect_cells n st (x # xs) p =
     bindR (Read_intersect n st x p) (\<lambda>(ok, p, st).
     bindR (MultiRead_intersect_cells n st xs p) (\<lambda>(result, kept, p, st).
       Ok (ok \<or> result, (if ok then x # kept else kept), p, st)))"

definition intersect :: "Context \<Rightarrow> rdid \<Rightarrow> Constraint \<Rightarrow> (bool \<times> Constraint \<times> Context) result" where
  "intersect c r p =
     bindR (Read_intersect (Suc (readCount c)) (readStore c) r p) (\<lambda>(ok, p, st).
       Ok (ok, p, c \<lparr> readStore := st \<rparr>))"

definition valid :: "Context \<Rightarrow> rdid option \<Rightarrow> (bool \<times> Context) result" where
  "valid c r =
     (case r of
        None \<Rightarrow> Ok (False, c)
      | Some r \<Rightarrow>
          bindR (Read_valid (Suc (readCount c)) (readStore c) r) (\<lambda>(ok, st).
            Ok (ok, c \<lparr> readStore := st \<rparr>)))"

fun live_loop :: "nat \<Rightarrow> Context \<Rightarrow> vid \<Rightarrow> vid \<Rightarrow> (bool \<times> Context) result" where
  "live_loop 0 c v p = Diverges"
| "live_loop (Suc n) c v p =
     (if p = v then Ok (False, c)
      else bindR (valid c (v_reads (valueStore c p))) (\<lambda>(ok, c).
             if ok then Ok (True, c) else live_loop n c v (buddy (valueStore c p))))"

definition live :: "Context \<Rightarrow> vid \<Rightarrow> (bool \<times> Context) result" where
  "live c v =
     bindR (valid c (v_reads (valueStore c v))) (\<lambda>(ok, c).
       if ok then Ok (True, c) else live_loop (valueCount c) c v (buddy (valueStore c v)))"

definition Read_next :: "Context \<Rightarrow> rdid \<Rightarrow> rdid option result" where
  "Read_next c r =
     (case rd_body (readStore c r) of
        SingleRead nxt k \<Rightarrow> Ok nxt
      | StubRead nxt rd visited \<Rightarrow> Ok nxt
      | MultiRead cells targets visited \<Rightarrow> Abort)"

definition nextRead :: "Context \<Rightarrow> eid option \<Rightarrow> vid \<Rightarrow> Context result" where
  "nextRead c e v =
     (case v_reads (valueStore c v) of
        None \<Rightarrow> Fault
      | Some r \<Rightarrow>
          bindR (assertR (e = rd_event (readStore c r))) (\<lambda>_.
          bindR (Read_next c r) (\<lambda>nxt.
            let c = c \<lparr> valueStore := (valueStore c)(v := (valueStore c v)\<lparr> v_reads := nxt \<rparr>) \<rparr>
            in bindR (live c v) (\<lambda>(alive, c).
                 if \<not> alive then clearSites c v else Ok c))))"

section \<open>The allocator\<close>

text \<open>
  The functions that claim a register or a frame slot for a site call each other:
  \<^verbatim>\<open>addSite\<close> acquires the site, acquiring picks a register or a slot, and a register or slot
  in use is stolen from its value, which may \<^verbatim>\<open>move\<close> the value to a save site, which is
  \<^verbatim>\<open>addSite\<close> again. Nothing in the source bounds this recursion, so every function takes
  the number of nested calls it may still make and is \<open>Diverges\<close> when they are used up.
\<close>

fun findLocal :: "Local list \<Rightarrow> vid \<Rightarrow> nat list \<Rightarrow> nat option result" where
  "findLocal locals v [] = Ok None"
| "findLocal locals v (li # rest) =
     (if li < length locals
      then (if l_value (locals ! li) = Some v then Ok (Some li) else findLocal locals v rest)
      else Fault)"

text \<open>
  The two loops of \<^verbatim>\<open>trySteal\<close> that look for a save site: the locals first, then the
  stack. The masks handed to \<^verbatim>\<open>intersect\<close> are uninitialised in the source and not read
  afterwards; only the frame index is.
\<close>

definition saveSite ::
  "Context \<Rightarrow> vid \<Rightarrow> StackElement list \<Rightarrow> Local list \<Rightarrow> (sid option \<times> Context) result" where
  "saveSite c v stack locals =
     bindR (findLocal locals v [0 ..< unat (localFootprint c)]) (\<lambda>found.
       case found of
         Some li \<Rightarrow>
           bindR (frameSite c (frameIndex c (of_nat li)
                    (ceilingU (l_sizeInBytes (locals ! li)) (BytesPerWord (arch c)))))
             (\<lambda>(d, c). Ok (Some d, c))
       | None \<Rightarrow>
           (case find (\<lambda>s. s_value s = v) stack of
              None \<Rightarrow> Ok (None, c)
            | Some s \<Rightarrow>
                (case v_reads (valueStore c v) of
                   None \<Rightarrow> Fault
                 | Some r \<Rightarrow>
                     bindR (intersect c r
                              \<lparr> typeMaskOf = 0, registerMaskOf = 0, frameIndexOf = AnyFrameIndex \<rparr>)
                       (\<lambda>(ok, p, c).
                          bindR (if 0 \<le> sint (frameIndexOf p) then frameSite c (frameIndexOf p)
                                 else frameSite c (frameIndex c (s_index s + localFootprint c)
                                                     (s_sizeInWords s)))
                            (\<lambda>(d, c). Ok (Some d, c))))))"

definition setRegister :: "Context \<Rightarrow> gid \<Rightarrow> u32 \<Rightarrow> vid option \<Rightarrow> sid option \<Rightarrow> Context" where
  "setRegister c r sz v s =
     c \<lparr> registerStore := (registerStore c)(r := (registerStore c r)
           \<lparr> reg_size := sz, reg_value := v, reg_site := s \<rparr>) \<rparr>"

definition swap :: "Context \<Rightarrow> gid \<Rightarrow> gid \<Rightarrow> Context result" where
  "swap c a b =
     (let na = reg_number (registerStore c a); nb = reg_number (registerStore c b) in
      bindR (assertR (a \<noteq> b)) (\<lambda>_.
      bindR (assertR (na \<noteq> nb)) (\<lambda>_.
        let c = c \<lparr> code := code c @
                  [Apply2 Swap (BytesPerWord (arch c)) (RegisterOp na NoRegister)
                     (BytesPerWord (arch c)) (RegisterOp nb NoRegister)] \<rparr>
        in if 0 \<le> sint na \<and> nat (sint na) < length (registers c) \<and>
              0 \<le> sint nb \<and> nat (sint nb) < length (registers c)
           then Ok (c \<lparr> registers := (registers c)[nat (sint na) := b, nat (sint nb) := a],
                       registerStore := (registerStore c)
                         (a := (registerStore c a)\<lparr> reg_number := nb \<rparr>,
                          b := (registerStore c b)\<lparr> reg_number := na \<rparr>) \<rparr>)
           else Fault)))"

definition setFrameResource :: "Context \<Rightarrow> nat \<Rightarrow> u32 \<Rightarrow> vid option \<Rightarrow> sid option \<Rightarrow> Context" where
  "setFrameResource c i sz v s =
     c \<lparr> frameResources := (frameResources c)
           [i := \<lparr> fr_value = v, fr_site = s, fr_size = sz \<rparr>] \<rparr>"

text \<open>
  Each function is first written with the functions it calls as parameters (primed, in the
  order of the source); \<open>allocator n\<close> then is the family of the ten functions that may
  still nest \<open>n\<close> calls, each calling the ones of \<open>allocator (n - 1)\<close>.
\<close>

type_synonym Stack = "StackElement list"
type_synonym addSite_t = "Context \<Rightarrow> Stack \<Rightarrow> Local list \<Rightarrow> u32 \<Rightarrow> vid \<Rightarrow> sid \<Rightarrow> Context result"
type_synonym Site_acquire_t =
  "Context \<Rightarrow> sid \<Rightarrow> Stack \<Rightarrow> Local list \<Rightarrow> u32 \<Rightarrow> vid option \<Rightarrow> Context result"
type_synonym validate_t =
  "Context \<Rightarrow> u32 \<Rightarrow> Stack \<Rightarrow> Local list \<Rightarrow> u32 \<Rightarrow> vid option \<Rightarrow> sid \<Rightarrow> gid option
   \<Rightarrow> (gid \<times> Context) result"
type_synonym acquire_t =
  "Context \<Rightarrow> u32 \<Rightarrow> Stack \<Rightarrow> Local list \<Rightarrow> u32 \<Rightarrow> vid option \<Rightarrow> sid option
   \<Rightarrow> (gid \<times> Context) result"
type_synonym replace_t = "Context \<Rightarrow> Stack \<Rightarrow> Local list \<Rightarrow> gid \<Rightarrow> (gid \<times> Context) result"
type_synonym trySteal_t =
  "Context \<Rightarrow> sid \<Rightarrow> vid \<Rightarrow> u32 \<Rightarrow> Stack \<Rightarrow> Local list \<Rightarrow> (bool \<times> Context) result"
type_synonym trySteal_Register_t =
  "Context \<Rightarrow> gid \<Rightarrow> Stack \<Rightarrow> Local list \<Rightarrow> (bool \<times> Context) result"
type_synonym trySteal_FrameResource_t =
  "Context \<Rightarrow> nat \<Rightarrow> Stack \<Rightarrow> Local list \<Rightarrow> (bool \<times> Context) result"
type_synonym move_t =
  "Context \<Rightarrow> Stack \<Rightarrow> Local list \<Rightarrow> u32 \<Rightarrow> vid \<Rightarrow> sid \<Rightarrow> sid \<Rightarrow> Context result"
type_synonym acquireFrameIndex_t =
  "Context \<Rightarrow> int32 \<Rightarrow> Stack \<Rightarrow> Local list \<Rightarrow> u32 \<Rightarrow> vid option \<Rightarrow> sid \<Rightarrow> bool
   \<Rightarrow> Context result"

definition addSite_body :: "Site_acquire_t \<Rightarrow> addSite_t" where
  "addSite_body Site_acquire' c stack locals sz v s =
     (if \<not> findSite c v (Some s)
      then bindR (Site_acquire' c s stack locals sz (Some v)) (\<lambda>c.
             Ok (c \<lparr> valueStore := (valueStore c)(v := (valueStore c v)
                       \<lparr> v_sites := s # v_sites (valueStore c v) \<rparr>) \<rparr>))
      else Ok c)"

definition Site_acquire_body :: "validate_t \<Rightarrow> acquireFrameIndex_t \<Rightarrow> Site_acquire_t" where
  "Site_acquire_body validate' acquireFrameIndex' c this stack locals sz v =
     (case siteStore c this of
        RegisterSite rmask low high \<Rightarrow>
          bindR (validate' c (ucast rmask) stack locals sz v this low) (\<lambda>(l, c).
            let c = c \<lparr> siteStore := (siteStore c)(this := RegisterSite rmask (Some l) high) \<rparr> in
            if BytesPerWord (arch c) < sz
            then bindR (freeze c l) (\<lambda>c.
                 bindR (validate' c (ucast (drop_bit 32 rmask)) stack locals sz v this high)
                   (\<lambda>(h, c).
                      let c = c \<lparr> siteStore := (siteStore c)
                                  (this := RegisterSite rmask (Some l) (Some h)) \<rparr>
                      in thaw c l))
            else Ok c)
      | MemorySite base index m \<Rightarrow>
          bindR (increment c (m_base m)) (\<lambda>(b, c).
          bindR (if m_index m \<noteq> NoRegister
                 then bindR (increment c (m_index m)) (\<lambda>(i, c). Ok (Some i, c))
                 else Ok (index, c)) (\<lambda>(i, c).
            let c = c \<lparr> siteStore := (siteStore c)(this := MemorySite (Some b) i m) \<rparr> in
            if m_base m = arch_stack (arch c)
            then bindR (assertR (m_index m = NoRegister)) (\<lambda>_.
                   acquireFrameIndex' c (offsetToFrameIndex c (m_offset m)) stack locals sz v
                     this True)
            else Ok c))
      | _ \<Rightarrow> Ok c)"

definition validate_body :: "acquire_t \<Rightarrow> validate_t" where
  "validate_body acquire' c rmask stack locals sz v site current =
     (let inMask = (case current of
                      None \<Rightarrow> False
                    | Some cur \<Rightarrow>
                        (rmask AND push_bit (unat (reg_number (registerStore c cur))) 1) \<noteq> 0)
      in if inMask \<and> (reserved (registerStore c (the current)) \<or>
                       reg_value (registerStore c (the current)) = v)
         then Ok (the current, c)
         else if inMask \<and> reg_value (registerStore c (the current)) = None
         then Ok (the current, setRegister c (the current) sz v (Some site))
         else bindR (acquire' c rmask stack locals sz v (Some site)) (\<lambda>(r, c).
                case current of
                  None \<Rightarrow> Ok (r, c)
                | Some cur \<Rightarrow>
                    if cur \<noteq> r
                    then let c = release c cur in
                         Ok (r, c \<lparr> code := code c @
                                 [Apply2 Move (BytesPerWord (arch c))
                                    (RegisterOp (reg_number (registerStore c cur)) NoRegister)
                                    (BytesPerWord (arch c))
                                    (RegisterOp (reg_number (registerStore c r)) NoRegister)] \<rparr>)
                    else Ok (r, c)))"

definition acquire_body :: "replace_t \<Rightarrow> trySteal_Register_t \<Rightarrow> acquire_t" where
  "acquire_body replace' trySteal_Register' c rmask stack locals newSize newValue newSite' =
     bindR (pickRegister c rmask) (\<lambda>r.
       if reserved (registerStore c r) then Ok (r, c)
       else bindR
              (if refCount (registerStore c r) \<noteq> 0 then replace' c stack locals r
               else (case reg_value (registerStore c r) of
                       None \<Rightarrow> Ok (r, c)
                     | Some oldValue \<Rightarrow>
                         if Some oldValue \<noteq> newValue \<and>
                            findSite c oldValue (reg_site (registerStore c r))
                         then bindR (trySteal_Register' c r stack locals) (\<lambda>(stolen, c).
                                if \<not> stolen then replace' c stack locals r else Ok (r, c))
                         else Ok (r, c)))
              (\<lambda>(r, c). Ok (r, setRegister c r newSize newValue newSite')))"

definition replace_body :: "acquire_t \<Rightarrow> replace_t" where
  "replace_body acquire' c stack locals r =
     bindR (if freezeCount (registerStore c r) \<noteq> 0
            then (case reg_site (registerStore c r) of
                    None \<Rightarrow> Fault
                  | Some rs \<Rightarrow>
                      (case siteStore c rs of
                         RegisterSite rmask low high \<Rightarrow> Ok (ucast rmask)
                       | _ \<Rightarrow> Fault))
            else Ok (NOT 0)) (\<lambda>rmask.
     bindR (freeze c r) (\<lambda>c.
     bindR (acquire' c rmask stack locals (reg_size (registerStore c r))
              (reg_value (registerStore c r)) (reg_site (registerStore c r))) (\<lambda>(s, c).
     bindR (thaw c r) (\<lambda>c.
     bindR (swap c r s) (\<lambda>c. Ok (s, c))))))"

definition trySteal_body :: "move_t \<Rightarrow> trySteal_t" where
  "trySteal_body move' c site v sz stack locals =
     (case v_sites (valueStore c v) of
        [] \<Rightarrow> Fault
      | [only] \<Rightarrow>
          bindR (saveSite c v stack locals) (\<lambda>(save, c).
            case save of
              Some d \<Rightarrow>
                bindR (move' c stack locals sz v site d) (\<lambda>c.
                bindR (removeSite c v site) (\<lambda>c. Ok (True, c)))
            | None \<Rightarrow> Ok (False, c))
      | _ \<Rightarrow> bindR (removeSite c v site) (\<lambda>c. Ok (True, c)))"

definition trySteal_Register_body :: "trySteal_t \<Rightarrow> trySteal_Register_t" where
  "trySteal_Register_body trySteal' c r stack locals =
     bindR (assertR (refCount (registerStore c r) = 0)) (\<lambda>_.
       case reg_value (registerStore c r) of
         None \<Rightarrow> Fault
       | Some v \<Rightarrow>
           bindR (live c v) (\<lambda>(alive, c).
           bindR (assertR alive) (\<lambda>_.
             case reg_site (registerStore c r) of
               None \<Rightarrow> Fault
             | Some site \<Rightarrow>
                 (case reg_value (registerStore c r) of
                    None \<Rightarrow> Fault
                  | Some v \<Rightarrow>
                      trySteal' c site v (reg_size (registerStore c r)) stack locals))))"

definition trySteal_FrameResource_body :: "trySteal_t \<Rightarrow> trySteal_FrameResource_t" where
  "trySteal_FrameResource_body trySteal' c i stack locals =
     (case fr_value (frameResources c ! i) of
        None \<Rightarrow> Fault
      | Some v \<Rightarrow>
          bindR (assertR (v_reads (valueStore c v) \<noteq> None)) (\<lambda>_.
            case fr_site (frameResources c ! i) of
              None \<Rightarrow> Fault
            | Some site \<Rightarrow>
                trySteal' c site v (fr_size (frameResources c ! i)) stack locals))"

definition move_body :: "addSite_t \<Rightarrow> move_t" where
  "move_body addSite' c stack locals sz v src dst =
     bindR (if Site_type (siteStore c dst) = MemoryOperand \<and>
               (Site_type (siteStore c src) = MemoryOperand \<or>
                Site_type (siteStore c src) = AddressOperand)
            then (case freeRegisterSite c (NOT 0) of
                    (tmp, c) \<Rightarrow>
                      bindR (addSite' c stack locals sz v tmp) (\<lambda>c.
                      bindR (apply2 c Move sz src sz tmp) (\<lambda>c. Ok (tmp, c))))
            else Ok (src, c)) (\<lambda>(src, c).
     bindR (addSite' c stack locals sz v dst) (\<lambda>c.
       apply2 c Move sz src sz dst))"

definition acquireFrameIndex_body ::
  "acquireFrameIndex_t \<Rightarrow> trySteal_FrameResource_t \<Rightarrow> acquireFrameIndex_t" where
  "acquireFrameIndex_body acquireFrameIndex' trySteal_FrameResource'
     c fi stack locals newSize newValue newSite' recurse =
     bindR (frameResourceAt c fi) (\<lambda>(i, r0).
     bindR (if recurse \<and> BytesPerWord (arch c) < newSize
            then acquireFrameIndex' c (fi + 1) stack locals newSize newValue newSite' False
            else Ok c) (\<lambda>c.
     bindR (case fr_value (frameResources c ! i) of
              None \<Rightarrow> Ok c
            | Some oldValue \<Rightarrow>
                if Some oldValue \<noteq> newValue \<and>
                   findSite c oldValue (fr_site (frameResources c ! i))
                then bindR (trySteal_FrameResource' c i stack locals) (\<lambda>(stolen, c).
                       if \<not> stolen then Abort else Ok c)
                else Ok c) (\<lambda>c.
       Ok (setFrameResource c i newSize newValue (Some newSite')))))"

record Allocator =
  addSite_of :: addSite_t
  Site_acquire_of :: Site_acquire_t
  validate_of :: validate_t
  acquire_of :: acquire_t
  replace_of :: replace_t
  trySteal_of :: trySteal_t
  trySteal_Register_of :: trySteal_Register_t
  trySteal_FrameResource_of :: trySteal_FrameResource_t
  move_of :: move_t
  acquireFrameIndex_of :: acquireFrameIndex_t

primrec allocator :: "nat \<Rightarrow> Allocator" where
  "allocator 0 =
     \<lparr> addSite_of = (\<lambda>c stack locals sz v s. Diverges),
       Site_acquire_of = (\<lambda>c this stack locals sz v. Diverges),
       validate_of = (\<lambda>c rmask stack locals sz v site current. Diverges),
       acquire_of = (\<lambda>c rmask stack locals newSize newValue newSite'. Diverges),
       replace_of = (\<lambda>c stack locals r. Diverges),
       trySteal_of = (\<lambda>c site v sz stack locals. Diverges),
       trySteal_Register_of = (\<lambda>c r stack locals. Diverges),
       trySteal_FrameResource_of = (\<lambda>c i stack locals. Diverges),
       move_of = (\<lambda>c stack locals sz v src dst. Diverges),
       acquireFrameIndex_of = (\<lambda>c fi stack locals newSize newValue newSite' recurse. Diverges) \<rparr>"
| "allocator (Suc n) =
     \<lparr> addSite_of = addSite_body (Site_acquire_of (allocator n)),
       Site_acquire_of =
         Site_acquire_body (validate_of (allocator n)) (acquireFrameIndex_of (allocator n)),
       validate_of = validate_body (acquire_of (allocator n)),
       acquire_of = acquire_body (replace_of (allocator n)) (trySteal_Register_of (allocator n)),
       replace_of = replace_body (acquire_of (allocator n)),
       trySteal_of = trySteal_body (move_of (allocator n)),
       trySteal_Register_of = trySteal_Register_body (trySteal_of (allocator n)),
       trySteal_FrameResource_of = trySteal_FrameResource_body (trySteal_of (allocator n)),
       move_of = move_body (addSite_of (allocator n)),
       acquireFrameIndex_of =
         acquireFrameIndex_body (acquireFrameIndex_of (allocator n))
           (trySteal_FrameResource_of (allocator n)) \<rparr>"

definition addSite :: "nat \<Rightarrow> addSite_t" where
  "addSite n = addSite_of (allocator n)"

definition Site_acquire :: "nat \<Rightarrow> Site_acquire_t" where
  "Site_acquire n = Site_acquire_of (allocator n)"

definition validate :: "nat \<Rightarrow> validate_t" where
  "validate n = validate_of (allocator n)"

definition acquire :: "nat \<Rightarrow> acquire_t" where
  "acquire n = acquire_of (allocator n)"

definition replace :: "nat \<Rightarrow> replace_t" where
  "replace n = replace_of (allocator n)"

definition trySteal :: "nat \<Rightarrow> trySteal_t" where
  "trySteal n = trySteal_of (allocator n)"

definition trySteal_Register :: "nat \<Rightarrow> trySteal_Register_t" where
  "trySteal_Register n = trySteal_Register_of (allocator n)"

definition trySteal_FrameResource :: "nat \<Rightarrow> trySteal_FrameResource_t" where
  "trySteal_FrameResource n = trySteal_FrameResource_of (allocator n)"

definition move :: "nat \<Rightarrow> move_t" where
  "move n = move_of (allocator n)"

definition acquireFrameIndex :: "nat \<Rightarrow> acquireFrameIndex_t" where
  "acquireFrameIndex n = acquireFrameIndex_of (allocator n)"

section \<open>Events\<close>






text \<open>
  An event. \<open>e_reads\<close> is the list \<^verbatim>\<open>e->reads\<close>, \<^verbatim>\<open>r->eventNext\<close>, ...; the classes of events
  the model has are the constructors of \<open>EventBody\<close>, with their fields. A \<open>CallEvent\<close> has
  \<^verbatim>\<open>address\<close>, whether it has a trace handler, \<^verbatim>\<open>result\<close>, \<^verbatim>\<open>popIndex\<close>, whether \<^verbatim>\<open>flags\<close> has
  \<^verbatim>\<open>Compiler::Aligned\<close>, and \<^verbatim>\<open>resultSize\<close>.
\<close>

datatype EventBody =
    CallEvent vid bool "vid option" u32 bool u32
  | ReturnEvent "vid option"
  | CompareEvent u32 vid vid
  | BranchEvent UnaryOperation vid
  | FrameSiteEvent vid u32 int32
  | BuddyEvent vid vid
  | DummyEvent

record Event =
  e_this :: eid
  stackBefore :: Stack
  localsBefore :: "Local list"
  stackAfter :: Stack
  localsAfter :: "Local list"
  e_reads :: "rdid list"
  e_readCount :: u32
  e_logicalInstruction :: nat
  e_body :: EventBody




subsection \<open>Compare and Branch\<close>

definition constantValue :: "Context \<Rightarrow> sid \<Rightarrow> int64 result" where
  "constantValue c s =
     (case siteStore c s of ConstantSite p \<Rightarrow> Promise_value c p | _ \<Rightarrow> Fault)"

definition sourceOf :: "Context \<Rightarrow> vid \<Rightarrow> sid result" where
  "sourceOf c v = (case v_source (valueStore c v) of None \<Rightarrow> Fault | Some s \<Rightarrow> Ok s)"

definition CompareEvent_compile ::
  "Context \<Rightarrow> Event \<Rightarrow> u32 \<Rightarrow> vid \<Rightarrow> vid \<Rightarrow> Context result" where
  "CompareEvent_compile c this sz first second =
     bindR (case (findConstantSite c first, findConstantSite c second) of
              (Some firstConstant, Some secondConstant) \<Rightarrow>
                bindR (constantValue c firstConstant) (\<lambda>a.
                bindR (constantValue c secondConstant) (\<lambda>b.
                  let d = a - b in
                  Ok (c \<lparr> constantCompare :=
                            (if d <s 0 then CompareLess
                             else if 0 <s d then CompareGreater
                             else CompareEqual) \<rparr>)))
            | _ \<Rightarrow>
                (let c = c \<lparr> constantCompare := CompareNone \<rparr> in
                 bindR (sourceOf c first) (\<lambda>s1.
                 bindR (sourceOf c second) (\<lambda>s2.
                   apply2 c Compare sz s1 sz s2)))) (\<lambda>c.
     bindR (nextRead c (Some (e_this this)) first) (\<lambda>c.
       nextRead c (Some (e_this this)) second))"

text \<open>
  The two switches of \<^verbatim>\<open>BranchEvent::compile\<close>: whether to jump, and with which operation.
\<close>

definition branchDecision :: "ConstantCompare \<Rightarrow> UnaryOperation \<Rightarrow> bool \<times> UnaryOperation" where
  "branchDecision cc type =
     (if type \<noteq> Jump
      then (case cc of
              CompareLess \<Rightarrow>
                (case type of
                   JumpIfLess \<Rightarrow> (True, Jump)
                 | JumpIfLessOrEqual \<Rightarrow> (True, Jump)
                 | JumpIfNotEqual \<Rightarrow> (True, Jump)
                 | _ \<Rightarrow> (False, type))
            | CompareGreater \<Rightarrow>
                (case type of
                   JumpIfGreater \<Rightarrow> (True, Jump)
                 | JumpIfGreaterOrEqual \<Rightarrow> (True, Jump)
                 | JumpIfNotEqual \<Rightarrow> (True, Jump)
                 | _ \<Rightarrow> (False, type))
            | CompareEqual \<Rightarrow>
                (case type of
                   JumpIfEqual \<Rightarrow> (True, Jump)
                 | JumpIfLessOrEqual \<Rightarrow> (True, Jump)
                 | JumpIfGreaterOrEqual \<Rightarrow> (True, Jump)
                 | _ \<Rightarrow> (False, type))
            | CompareNone \<Rightarrow> (True, type))
      else (True, type))"

definition BranchEvent_compile ::
  "Context \<Rightarrow> Event \<Rightarrow> UnaryOperation \<Rightarrow> vid \<Rightarrow> Context result" where
  "BranchEvent_compile c this type address =
     (case branchDecision (constantCompare c) type of
        (jump, type) \<Rightarrow>
          bindR (if jump
                 then bindR (sourceOf c address) (\<lambda>s. apply1 c type (BytesPerWord (arch c)) s)
                 else Ok c) (\<lambda>c.
            nextRead c (Some (e_this this)) address))"

subsection \<open>Return, FrameSite, Buddy and Dummy\<close>






subsection \<open>Call\<close>









subsection \<open>The loop of compile\<close>






section \<open>What the allocator leaves alone\<close>

text \<open>
  The fields of the context that only the constructor, the client's calls and
  \<^verbatim>\<open>CompareEvent::compile\<close> write.
\<close>

definition control ::
  "Context \<Rightarrow> Architecture \<times> ConstantCompare \<times> u64 \<times> u32 \<times> u32 \<times> u32" where
  "control c =
     (arch c, constantCompare c, machineCode c, localFootprint c, parameterFootprint c,
      alignedFrameSize c)"


section \<open>Conditions and outcomes\<close>

text \<open>
  What a conditional jump tests, on the difference \<open>d\<close> of the two operands of the
  comparison before it; and the outcome a difference stands for.
\<close>

definition conditional :: "UnaryOperation \<Rightarrow> bool" where
  "conditional type =
     (type \<in> {JumpIfLess, JumpIfGreater, JumpIfLessOrEqual, JumpIfGreaterOrEqual,
               JumpIfEqual, JumpIfNotEqual})"

fun conditionHolds :: "UnaryOperation \<Rightarrow> int \<Rightarrow> bool" where
  "conditionHolds JumpIfLess d = (d < 0)"
| "conditionHolds JumpIfGreater d = (0 < d)"
| "conditionHolds JumpIfLessOrEqual d = (d \<le> 0)"
| "conditionHolds JumpIfGreaterOrEqual d = (0 \<le> d)"
| "conditionHolds JumpIfEqual d = (d = 0)"
| "conditionHolds JumpIfNotEqual d = (d \<noteq> 0)"
| "conditionHolds type d = True"

definition outcomeOf :: "int \<Rightarrow> ConstantCompare" where
  "outcomeOf d = (if d < 0 then CompareLess else if 0 < d then CompareGreater else CompareEqual)"


definition mapR :: "('a \<Rightarrow> 'b) \<Rightarrow> 'a result \<Rightarrow> 'b result" where
  "mapR f r = bindR r (\<lambda>x. Ok (f x))"

text \<open>
  The jump \<open>type\<close> to the source of the value \<open>address\<close>, as \<^verbatim>\<open>apply\<close> hands it to the
  assembler.
\<close>

definition branchCode :: "Context \<Rightarrow> UnaryOperation \<Rightarrow> vid \<Rightarrow> Instruction list result" where
  "branchCode c type address =
     bindR (sourceOf c address) (\<lambda>s.
       mapR (\<lambda>r. [Apply1 type (BytesPerWord (arch c)) (fst r)]) (Site_asAssemblerOperand c s))"

section \<open>The save slot\<close>





section \<open>The registers during a compilation\<close>

text \<open>
  What the equation of the register count needs to stay true while sites are acquired:
  the register at place \<open>i\<close> of \<^verbatim>\<open>c->registers\<close> has the number \<open>i\<close> (\<^verbatim>\<open>swap\<close> exchanges two
  places and their numbers), and the registers of every register site are among those of
  the array (they are what \<^verbatim>\<open>freeze\<close> and \<^verbatim>\<open>thaw\<close> of a site reach).
\<close>

fun siteRegisters :: "Site \<Rightarrow> gid set" where
  "siteRegisters (RegisterSite m low high) = set_option low \<union> set_option high"
| "siteRegisters s = {}"

definition numbered :: "Context \<Rightarrow> bool" where
  "numbered c \<longleftrightarrow>
     (\<forall>i < length (registers c). reg_number (registerStore c (registers c ! i)) = of_nat i)"

definition sitesWithin :: "Context \<Rightarrow> bool" where
  "sitesWithin c \<longleftrightarrow>
     (\<forall>s g. g \<in> siteRegisters (siteStore c s) \<longrightarrow> g \<in> set (registers c))"

definition registersSound :: "Context \<Rightarrow> bool" where
  "registersSound c \<longleftrightarrow> countEquation c \<and> numbered c \<and> sitesWithin c"

definition registerView ::
  "Context \<Rightarrow> Architecture \<times> gid list \<times> u32 \<times> (gid \<Rightarrow> u32 \<times> bool \<times> int32)" where
  "registerView c =
     (arch c, registers c, availableRegisterCount c,
      \<lambda>g. (freezeCount (registerStore c g), reserved (registerStore c g),
           reg_number (registerStore c g)))"

section \<open>A concrete target\<close>

text \<open>
  The target of the spec's boundary scenarios: eight registers, one of them (number 4)
  reserved as the stack pointer, and the argument registers 0, 1, 2; words of four bytes.
\<close>

definition exampleArch :: Architecture where
  "exampleArch =
     \<lparr> registerCount = 8,
       arch_reserved = (\<lambda>i. i = 4),
       arch_stack = 4,
       arch_thread = 3,
       returnLow = 0,
       returnHigh = 2,
       argumentRegisterCount = 3,
       argumentRegister = (\<lambda>i. of_nat i),
       frameHeaderSize = 2,
       frameFooterSize = 0,
       condensedAddressing = True,
       BytesPerWord = 4 \<rparr>"

definition exampleContext :: Context where
  "exampleContext = Context_new exampleArch"

text \<open>
  Two states of that target. In \<open>costExample\<close> the (reserved) stack-pointer register is the
  base of a memory site, so its reference count is 1. In \<open>pickExample\<close> register 5 is
  frozen and register 7 is the only site of value 0.
\<close>

definition costExample :: Context where
  "costExample =
     exampleContext \<lparr> registerStore :=
       (registerStore exampleContext)(4 := (registerStore exampleContext 4)\<lparr> refCount := 1 \<rparr>) \<rparr>"

definition pickExample :: Context where
  "pickExample =
     exampleContext \<lparr> registerStore :=
       (registerStore exampleContext)(5 := (registerStore exampleContext 5)\<lparr> freezeCount := 1 \<rparr>,
          7 := (registerStore exampleContext 7)\<lparr> reg_value := Some 0, reg_site := Some 0 \<rparr>),
       valueStore := (valueStore exampleContext)(0 := (valueStore exampleContext 0)\<lparr> v_sites := [0] \<rparr>) \<rparr>"

text \<open>
  A ring of two values: value 0 holds no site, its buddy 1 holds the constant site 5.
\<close>

definition ringExample :: Context where
  "ringExample =
     exampleContext \<lparr>
       valueStore := (valueStore exampleContext)
         (0 := (Value_new 0 None None) \<lparr> buddy := 1 \<rparr>,
          1 := (Value_new 1 (Some 5) None) \<lparr> buddy := 0 \<rparr>),
       siteStore := (siteStore exampleContext)(5 := ConstantSite (ResolvedPromise 3)),
       valueCount := 2,
       siteCount := 6 \<rparr>"

subsection \<open>A folded comparison\<close>

text \<open>
  The spec's scenario of a comparison of two constants: the values 0 and 1 both hold the
  constant 3, value 2 is the target of the branch. Event 0 is the Compare, event 1 a
  Dummy, event 2 the Branch; each read belongs to one of them.
\<close>

definition anything :: Constraint where
  "anything = \<lparr> typeMaskOf = NOT 0, registerMaskOf = NOT 0, frameIndexOf = AnyFrameIndex \<rparr>"

definition foldExample :: Context where
  "foldExample =
     exampleContext \<lparr>
       logicalCode := [Some \<lparr> li_machineOffset = None, li_index = 0 \<rparr>],
       valueStore := (valueStore exampleContext)
         (0 := (Value_new 0 (Some 0) None) \<lparr> v_reads := Some 0, v_lastRead := Some 0 \<rparr>,
          1 := (Value_new 1 (Some 1) None) \<lparr> v_reads := Some 1, v_lastRead := Some 1 \<rparr>,
          2 := (Value_new 2 (Some 2) None) \<lparr> v_reads := Some 2, v_lastRead := Some 2 \<rparr>),
       siteStore := (siteStore exampleContext)
         (0 := ConstantSite (ResolvedPromise 3),
          1 := ConstantSite (ResolvedPromise 3),
          2 := ConstantSite (ResolvedPromise 64)),
       readStore := (readStore exampleContext)
         (0 := \<lparr> rd_value = Some 0, rd_event = Some 0, rd_size = 4,
                 rd_body = SingleRead None anything \<rparr>,
          1 := \<lparr> rd_value = Some 1, rd_event = Some 0, rd_size = 4,
                 rd_body = SingleRead None anything \<rparr>,
          2 := \<lparr> rd_value = Some 2, rd_event = Some 2, rd_size = 4,
                 rd_body = SingleRead None anything \<rparr>),
       valueCount := 3,
       siteCount := 3,
       readCount := 3 \<rparr>"

definition compareExample :: Event where
  "compareExample =
     \<lparr> e_this = 0, stackBefore = [], localsBefore = [], stackAfter = [], localsAfter = [],
       e_reads = [1, 0], e_readCount = 2, e_logicalInstruction = 0,
       e_body = CompareEvent 4 0 1 \<rparr>"


definition branchExample :: "UnaryOperation \<Rightarrow> Event" where
  "branchExample type =
     \<lparr> e_this = 2, stackBefore = [], localsBefore = [], stackAfter = [], localsAfter = [],
       e_reads = [2], e_readCount = 1, e_logicalInstruction = 0,
       e_body = BranchEvent type 2 \<rparr>"


text \<open>
  The state a folded comparison leaves for the Branch: the outcome is recorded and the
  target has its source. And the comparison of two addresses in the constant pool, which
  have no value before the machine code is allocated.
\<close>

definition branchState :: Context where
  "branchState =
     foldExample \<lparr> constantCompare := CompareEqual,
       valueStore := (valueStore foldExample)
         (2 := (valueStore foldExample 2)\<lparr> v_source := Some 2 \<rparr>) \<rparr>"

definition poolExample :: Context where
  "poolExample =
     foldExample \<lparr> siteStore := (siteStore foldExample)
       (0 := ConstantSite (PoolPromise 0), 1 := ConstantSite (PoolPromise 1)) \<rparr>"


subsection \<open>A value in a register\<close>




definition stolen :: "(bool \<times> Context) result \<Rightarrow> (bool \<times> Instruction list \<times> sid list) result" where
  "stolen r = mapR (\<lambda>(b, c). (b, code c, v_sites (valueStore c 0))) r"

section \<open>Theorems\<close>

lemma bindR_simps:
  "bindR (Ok x) f = f x" "bindR Abort f = Abort" "bindR Fault f = Fault"
  "bindR Diverges f = Diverges"
  by (simp_all add: bindR_def)

lemma option_Fault_Ok:
  "(case x of None \<Rightarrow> Fault | Some y \<Rightarrow> f y) = Ok r \<longleftrightarrow> (\<exists>y. x = Some y \<and> f y = Ok r)"
  by (cases x) auto


text \<open>
  C3. The intersection of two read constraints: the type masks and the register masks are
  intersected bitwise, and the frame index is \<open>NoFrameIndex\<close> if either is \<open>NoFrameIndex\<close>,
  the other one if one is \<open>AnyFrameIndex\<close>, the shared value if both are equal, and
  \<open>NoFrameIndex\<close> otherwise. \<^verbatim>\<open>SingleRead::intersect\<close> always reports the read valid.
\<close>

theorem C3_intersect_law:
  "SingleRead_intersect this p =
     (True, \<lparr> typeMaskOf = typeMaskOf p AND typeMaskOf this,
              registerMaskOf = registerMaskOf p AND registerMaskOf this,
              frameIndexOf = spec_frameIndex (frameIndexOf p) (frameIndexOf this) \<rparr>)
   \<and> intersectFrameIndexes a b = spec_frameIndex a b"
  by (simp add: SingleRead_intersect_def intersectFrameIndexes_def spec_frameIndex_def)


subsection \<open>The register count\<close>



lemma filter_upd_same:
  "(\<And>x. P (h x) = P (g x)) \<Longrightarrow> filter (\<lambda>r. P (h r)) xs = filter (\<lambda>r. P (g r)) xs"
  by simp

lemma loop_state:
  "arch c0 = a \<Longrightarrow> registers c0 = [] \<Longrightarrow> availableRegisterCount c0 = registerCount a \<Longrightarrow>
   (let c = fold Context_loop_body [0 ..< k] c0 in
     arch c = a \<and> registers c = [0 ..< k] \<and>
     (\<forall>i < k. registerStore c i = (Register_new (of_nat i)) \<lparr> reserved := arch_reserved a i \<rparr>) \<and>
     availableRegisterCount c = registerCount a - of_nat (length (filter (arch_reserved a) [0 ..< k])))"
proof (induction k)
  case 0
  then show ?case by simp
next
  case (Suc k)
  then show ?case
    by (simp add: Let_def Context_loop_body_def Register_new_def less_Suc_eq)
qed

lemma Context_new_state:
  "arch (Context_new a) = a \<and> registers (Context_new a) = [0 ..< unat (registerCount a)] \<and>
   (\<forall>i < unat (registerCount a).
      registerStore (Context_new a) i = (Register_new (of_nat i)) \<lparr> reserved := arch_reserved a i \<rparr>) \<and>
   availableRegisterCount (Context_new a)
     = registerCount a - of_nat (length (filter (arch_reserved a) [0 ..< unat (registerCount a)]))"
  using loop_state [where k = "unat (registerCount a)" and a = a]
  by (simp add: Context_new_def Let_def)







lemma freeze_Ok:
  "freeze c r = Ok c' \<longleftrightarrow>
     availableRegisterCount c \<noteq> 0 \<and>
     c' = c \<lparr> registerStore := (registerStore c)(r := (registerStore c r)\<lparr> freezeCount := freezeCount (registerStore c r) + 1 \<rparr>),
              availableRegisterCount := availableRegisterCount c - 1 \<rparr>"
  by (auto simp: freeze_def assertR_def bindR_def)

lemma thaw_Ok:
  "thaw c r = Ok c' \<longleftrightarrow>
     freezeCount (registerStore c r) \<noteq> 0 \<and>
     c' = c \<lparr> registerStore := (registerStore c)(r := (registerStore c r)\<lparr> freezeCount := freezeCount (registerStore c r) - 1 \<rparr>),
              availableRegisterCount := availableRegisterCount c + 1 \<rparr>"
  by (auto simp: thaw_def assertR_def bindR_def)














lemma fold_Context_machineCode:
  "machineCode (fold Context_loop_body xs c0) = machineCode c0"
  by (induction xs arbitrary: c0) (simp_all add: Context_loop_body_def Let_def)

lemma exampleContext_state:
  "arch exampleContext = exampleArch \<and> registers exampleContext = [0, 1, 2, 3, 4, 5, 6, 7] \<and>
   availableRegisterCount exampleContext = 7"
  using Context_new_state [of exampleArch]
  by (simp add: exampleContext_def exampleArch_def upt_conv_Cons)

lemma exampleContext_register:
  "i < 8 \<Longrightarrow> registerStore exampleContext i = (Register_new (of_nat i)) \<lparr> reserved := (i = 4) \<rparr>"
  using Context_new_state [of exampleArch]
  by (simp add: exampleContext_def exampleArch_def)



subsection \<open>Promises\<close>

text \<open>
  C6, as the code has it. A \<open>PoolPromise\<close> and an \<open>IpPromise\<close> are resolved exactly when
  the machine-code base pointer is non-null; a \<open>CodePromise\<close> is resolved exactly when the
  base pointer is non-null and its offset promise is present and itself resolved. Calling
  \<^verbatim>\<open>value()\<close> on any of the three while it is unresolved aborts.
\<close>

theorem C6_promise_resolution:
  "(Promise_resolved c (PoolPromise key) \<longleftrightarrow> machineCode c \<noteq> 0) \<and>
   (Promise_resolved c (IpPromise logicalIp) \<longleftrightarrow> machineCode c \<noteq> 0) \<and>
   (Promise_resolved c (CodePromise offset) \<longleftrightarrow>
      machineCode c \<noteq> 0 \<and> (\<exists>p. offset = Some p \<and> Promise_resolved c p)) \<and>
   (\<not> Promise_resolved c (PoolPromise key) \<longrightarrow> Promise_value c (PoolPromise key) = Abort) \<and>
   (\<not> Promise_resolved c (IpPromise logicalIp) \<longrightarrow> Promise_value c (IpPromise logicalIp) = Abort) \<and>
   (\<not> Promise_resolved c (CodePromise offset) \<longrightarrow> Promise_value c (CodePromise offset) = Abort)"
  by (cases offset) simp_all

theorem C6_witness:
  "\<not> Promise_resolved exampleContext (PoolPromise 3) \<and>
   Promise_value exampleContext (PoolPromise 3) = Abort \<and>
   \<not> Promise_resolved exampleContext (IpPromise 0) \<and>
   Promise_value exampleContext (IpPromise 0) = Abort \<and>
   \<not> Promise_resolved exampleContext (CodePromise (Some (OffsetPromise (Some 16)))) \<and>
   Promise_value exampleContext (CodePromise (Some (OffsetPromise (Some 16)))) = Abort \<and>
   Promise_resolved (exampleContext \<lparr> machineCode := 4096 \<rparr>) (CodePromise (Some (OffsetPromise (Some 16)))) \<and>
   Promise_value (exampleContext \<lparr> machineCode := 4096 \<rparr>) (CodePromise (Some (OffsetPromise (Some 16)))) = Ok 4112"
proof -
  have m: "machineCode exampleContext = 0"
    by (simp add: exampleContext_def Context_new_def fold_Context_machineCode)
  show ?thesis
    using C6_promise_resolution [of exampleContext 3 0 "Some (OffsetPromise (Some 16))"]
    using C6_promise_resolution [of "exampleContext \<lparr> machineCode := 4096 \<rparr>" 3 0 "Some (OffsetPromise (Some 16))"]
    by (simp add: m bindR_simps)
qed

text \<open>
  The claim as stated fails for a \<open>CodePromise\<close>: with a non-null base pointer and no
  offset promise yet, \<^verbatim>\<open>resolved()\<close> is false.
\<close>

theorem C6_counterexample:
  "\<not> (Promise_resolved (exampleContext \<lparr> machineCode := 4096 \<rparr>) (CodePromise None)
        \<longleftrightarrow> machineCode (exampleContext \<lparr> machineCode := 4096 \<rparr>) \<noteq> 0)"
  by simp


subsection \<open>Register cost and choice\<close>

lemma bit_test: "((2 ^ i AND rmask) \<noteq> (0 :: u32)) \<longleftrightarrow> bit rmask i"
  by (simp add: and_exp_eq_0_iff_not_bit and.commute)

lemma single_bit: "i < 32 \<Longrightarrow> bit (2 ^ i :: u32) j \<longleftrightarrow> j = i"
  by (auto simp: bit_simps)

lemma bestAbove_skip:
  "\<not> bit rmask n \<Longrightarrow> bestAbove c rmask K (Suc n) reg cost \<Longrightarrow> bestAbove c rmask K n reg cost"
proof -
  assume nb: "\<not> bit rmask n" and b: "bestAbove c rmask K (Suc n) reg cost"
  have r: "\<And>j. n \<le> j \<and> j < K \<and> bit rmask j \<Longrightarrow> Suc n \<le> j \<and> j < K \<and> bit rmask j"
    using nb by (metis Suc_leI le_neq_implies_less)
  show ?thesis
  proof (cases reg)
    case None
    then show ?thesis using b r unfolding bestAbove_def by simp
  next
    case (Some g)
    then obtain i where i: "Suc n \<le> i" "i < K" "bit rmask i" "g = registers c ! i"
        "registerCost c (registers c ! i) = cost" "cost < 5"
        "\<forall>j. Suc n \<le> j \<and> j < K \<and> bit rmask j \<longrightarrow>
                    cost \<le> registerCost c (registers c ! j) \<and>
                    (registerCost c (registers c ! j) = cost \<longrightarrow> j \<le> i)"
      using b unfolding bestAbove_def by auto
    have "n \<le> i" using i(1) by simp
    then have "\<exists>i. n \<le> i \<and> i < K \<and> bit rmask i \<and> g = registers c ! i \<and>
               registerCost c (registers c ! i) = cost \<and> cost < 5 \<and>
               (\<forall>j. n \<le> j \<and> j < K \<and> bit rmask j \<longrightarrow>
                    cost \<le> registerCost c (registers c ! j) \<and>
                    (registerCost c (registers c ! j) = cost \<longrightarrow> j \<le> i))"
      using i r by (intro exI [of _ i]) simp
    then show ?thesis unfolding bestAbove_def Some by simp
  qed
qed

lemma bestAbove_take:
  assumes b: "bestAbove c rmask K (Suc n) reg cost" and n: "n < K" and bt: "bit rmask n"
    and less: "registerCost c (registers c ! n) < cost"
  shows "bestAbove c rmask K n (Some (registers c ! n)) (registerCost c (registers c ! n))"
proof -
  let ?f = "\<lambda>j. registerCost c (registers c ! j)"
  have c5: "cost \<le> 5" using b unfolding bestAbove_def by (auto split: option.splits)
  have lo: "\<And>j. Suc n \<le> j \<and> j < K \<and> bit rmask j \<Longrightarrow> cost \<le> ?f j"
    using b unfolding bestAbove_def by (auto split: option.splits)
  have "\<forall>j. n \<le> j \<and> j < K \<and> bit rmask j \<longrightarrow> ?f n \<le> ?f j \<and> (?f j = ?f n \<longrightarrow> j \<le> n)"
  proof (intro allI impI)
    fix j assume j: "n \<le> j \<and> j < K \<and> bit rmask j"
    show "?f n \<le> ?f j \<and> (?f j = ?f n \<longrightarrow> j \<le> n)"
    proof (cases "j = n")
      case True then show ?thesis by simp
    next
      case False
      then have "Suc n \<le> j" using j by simp
      then have "cost \<le> ?f j" using lo j by simp
      then have "?f n < ?f j" using less by simp
      then show ?thesis by auto
    qed
  qed
  moreover have "?f n < 5" using less c5 by simp
  ultimately have "\<exists>i. n \<le> i \<and> i < K \<and> bit rmask i \<and> registers c ! n = registers c ! i \<and>
               ?f i = ?f n \<and> ?f n < 5 \<and>
               (\<forall>j. n \<le> j \<and> j < K \<and> bit rmask j \<longrightarrow>
                    ?f n \<le> ?f j \<and> (?f j = ?f n \<longrightarrow> j \<le> i))"
    using n bt by (intro exI [of _ n]) simp
  then show ?thesis unfolding bestAbove_def by simp
qed

lemma bestAbove_keep:
  assumes b: "bestAbove c rmask K (Suc n) reg cost"
    and notless: "\<not> registerCost c (registers c ! n) < cost"
  shows "bestAbove c rmask K n reg cost"
proof -
  let ?f = "\<lambda>j. registerCost c (registers c ! j)"
  have ge: "cost \<le> ?f n" using notless by simp
  show ?thesis
  proof (cases reg)
    case None
    have "\<forall>j. n \<le> j \<and> j < K \<and> bit rmask j \<longrightarrow> 5 \<le> ?f j"
    proof (intro allI impI)
      fix j assume j: "n \<le> j \<and> j < K \<and> bit rmask j"
      show "5 \<le> ?f j"
      proof (cases "j = n")
        case True then show ?thesis using ge b None unfolding bestAbove_def by simp
      next
        case False
        then have "Suc n \<le> j" using j by simp
        then show ?thesis using b None j unfolding bestAbove_def by simp
      qed
    qed
    then show ?thesis using b None unfolding bestAbove_def by simp
  next
    case (Some g)
    then obtain i where i: "Suc n \<le> i" "i < K" "bit rmask i" "g = registers c ! i"
        "?f i = cost" "cost < 5"
        "\<forall>j. Suc n \<le> j \<and> j < K \<and> bit rmask j \<longrightarrow> cost \<le> ?f j \<and> (?f j = cost \<longrightarrow> j \<le> i)"
      using b unfolding bestAbove_def by auto
    have "\<forall>j. n \<le> j \<and> j < K \<and> bit rmask j \<longrightarrow> cost \<le> ?f j \<and> (?f j = cost \<longrightarrow> j \<le> i)"
    proof (intro allI impI)
      fix j assume j: "n \<le> j \<and> j < K \<and> bit rmask j"
      show "cost \<le> ?f j \<and> (?f j = cost \<longrightarrow> j \<le> i)"
      proof (cases "j = n")
        case True then show ?thesis using ge i(1) by simp
      next
        case False
        then have "Suc n \<le> j" using j by simp
        then show ?thesis using i(7) j by simp
      qed
    qed
    moreover have "n \<le> i" using i(1) by simp
    ultimately have "\<exists>i. n \<le> i \<and> i < K \<and> bit rmask i \<and> g = registers c ! i \<and>
               ?f i = cost \<and> cost < 5 \<and>
               (\<forall>j. n \<le> j \<and> j < K \<and> bit rmask j \<longrightarrow>
                    cost \<le> ?f j \<and> (?f j = cost \<longrightarrow> j \<le> i))"
      using i by (intro exI [of _ i]) simp
    then show ?thesis unfolding bestAbove_def Some by simp
  qed
qed

lemma loop_best:
  "\<forall>i < n. bit rmask i \<longrightarrow> rmask \<noteq> push_bit i 1 \<Longrightarrow> n \<le> K \<Longrightarrow>
   bestAbove c rmask K n reg cost \<Longrightarrow>
   \<exists>cost'. bestAbove c rmask K 0 (pickRegister_loop c rmask n reg cost) cost'"
proof (induction n arbitrary: reg cost)
  case 0
  then show ?case by auto
next
  case (Suc n)
  have ns: "\<forall>i < n. bit rmask i \<longrightarrow> rmask \<noteq> push_bit i 1" using Suc.prems(1) by simp
  have nK: "n \<le> K" "n < K" using Suc.prems(2) by simp_all
  show ?case
  proof (cases "bit rmask n")
    case False
    then have "bestAbove c rmask K n reg cost"
      using Suc.prems(3) by (rule bestAbove_skip)
    then show ?thesis using Suc.IH [OF ns nK(1)] False by (simp add: bit_test)
  next
    case True
    then have nm: "2 ^ n \<noteq> rmask" using Suc.prems(1) by auto
    show ?thesis
    proof (cases "registerCost c (registers c ! n) < cost")
      case less: True
      have "bestAbove c rmask K n (Some (registers c ! n)) (registerCost c (registers c ! n))"
        using Suc.prems(3) nK(2) True less by (rule bestAbove_take)
      then show ?thesis using Suc.IH [OF ns nK(1)] True nm less
        by (simp add: bit_test Let_def)
    next
      case notless: False
      have "bestAbove c rmask K n reg cost"
        using Suc.prems(3) notless by (rule bestAbove_keep)
      then show ?thesis using Suc.IH [OF ns nK(1)] True nm notless
        by (simp add: bit_test Let_def)
    qed
  qed
qed


lemma loop_single:
  "i < n \<Longrightarrow> i < 32 \<Longrightarrow>
   pickRegister_loop c (2 ^ i) n reg cost = Some (registers c ! i)"
proof (induction n arbitrary: reg cost)
  case 0
  then show ?case by simp
next
  case (Suc n)
  show ?case
  proof (cases "n = i")
    case True
    then show ?thesis using Suc.prems by (simp add: bit_test single_bit)
  next
    case False
    then have "i < n" using Suc.prems by simp
    moreover have "\<not> bit (2 ^ i :: u32) n" using False Suc.prems by (simp add: single_bit)
    ultimately show ?thesis using Suc.IH Suc.prems by (simp add: bit_test)
  qed
qed

lemma bestAbove_start: "bestAbove c rmask K K None 5"
  by (auto simp: bestAbove_def)

lemma loop_multi:
  "\<forall>i < K. bit rmask i \<longrightarrow> rmask \<noteq> push_bit i 1 \<Longrightarrow>
   \<exists>cost'. bestAbove c rmask K 0 (pickRegister_loop c rmask K None 5) cost'"
  using loop_best [of K rmask K c None 5] bestAbove_start by simp

lemma registerCost_cases:
  "registerCost c r =
     (if reserved (registerStore c r) \<or> freezeCount (registerStore c r) \<noteq> 0 then 6
      else (if used c r then 1 else 0) + (if usedExclusively c r then 2 else 0)
           + (if refCount (registerStore c r) \<noteq> 0 then 2 else 0))"
  by (simp add: registerCost_def usedExclusively_def Let_def)

lemma pick_Ok_best:
  assumes "pickRegister c rmask = Ok g"
  shows "\<exists>i < unat (registerCount (arch c)). g = registers c ! i \<and> bit rmask i \<and>
           (\<forall>j < unat (registerCount (arch c)). bit rmask j \<longrightarrow>
              registerCost c g \<le> registerCost c (registers c ! j) \<and>
              (registerCost c (registers c ! j) = registerCost c g \<longrightarrow> j \<le> i))"
proof -
  let ?N = "unat (registerCount (arch c))"
  have N: "?N \<le> 32" and l: "pickRegister_loop c rmask ?N None 5 = Some g"
    using assms by (auto simp: pickRegister_def split: if_splits option.splits)
  show ?thesis
  proof (cases "\<exists>i < ?N. bit rmask i \<and> rmask = push_bit i 1")
    case True
    then obtain i where i: "i < ?N" "rmask = 2 ^ i" by auto
    then have i32: "i < 32" using N by simp
    have "g = registers c ! i" using l loop_single [OF i(1) i32] i(2) by simp
    then show ?thesis using i i32 by (intro exI [of _ i]) (simp add: single_bit)
  next
    case False
    then have "\<forall>i < ?N. bit rmask i \<longrightarrow> rmask \<noteq> push_bit i 1" by blast
    then obtain cost' where "bestAbove c rmask ?N 0 (Some g) cost'"
      using loop_multi [of ?N rmask c] l by auto
    then show ?thesis unfolding bestAbove_def by auto
  qed
qed

lemma pick_returns:
  assumes N: "unat (registerCount (arch c)) \<le> 32"
    and j: "j < unat (registerCount (arch c))" "bit rmask j" "registerCost c (registers c ! j) < 5"
  shows "\<exists>g. pickRegister c rmask = Ok g"
proof -
  let ?N = "unat (registerCount (arch c))"
  have "pickRegister_loop c rmask ?N None 5 \<noteq> None"
  proof (cases "\<exists>i < ?N. bit rmask i \<and> rmask = push_bit i 1")
    case True
    then obtain i where i: "i < ?N" "rmask = 2 ^ i" by auto
    then have i32: "i < 32" using N by simp
    show ?thesis using loop_single [OF i(1) i32] i(2) by simp
  next
    case False
    then have "\<forall>i < ?N. bit rmask i \<longrightarrow> rmask \<noteq> push_bit i 1" by blast
    then obtain cost' where b: "bestAbove c rmask ?N 0 (pickRegister_loop c rmask ?N None 5) cost'"
      using loop_multi [of ?N rmask c] by auto
    show ?thesis
    proof
      assume "pickRegister_loop c rmask ?N None 5 = None"
      then have "5 \<le> registerCost c (registers c ! j)"
        using b j unfolding bestAbove_def by simp
      then show False using j(3) by simp
    qed
  qed
  then show ?thesis using N by (auto simp: pickRegister_def)
qed

lemma pick_single:
  "i < unat (registerCount (arch c)) \<Longrightarrow> unat (registerCount (arch c)) \<le> 32 \<Longrightarrow>
   pickRegister c (push_bit i 1) = Ok (registers c ! i)"
  using loop_single [of i "unat (registerCount (arch c))" c None 5]
  by (simp add: pickRegister_def)

lemma pick_multi:
  assumes N: "unat (registerCount (arch c)) \<le> 32"
    and m: "\<forall>i < unat (registerCount (arch c)). rmask \<noteq> push_bit i 1"
  shows "(pickRegister c rmask = Ok g \<longrightarrow> registerCost c g < 5) \<and>
         (pickRegister c rmask = Abort \<longleftrightarrow>
            (\<forall>j < unat (registerCount (arch c)). bit rmask j \<longrightarrow> 5 \<le> registerCost c (registers c ! j)))"
proof -
  let ?N = "unat (registerCount (arch c))"
  let ?res = "pickRegister_loop c rmask ?N None 5"
  obtain cost' where b: "bestAbove c rmask ?N 0 ?res cost'"
    using loop_multi [of ?N rmask c] m by auto
  show ?thesis
  proof (cases ?res)
    case None
    then have "\<forall>j < ?N. bit rmask j \<longrightarrow> 5 \<le> registerCost c (registers c ! j)"
      using b unfolding bestAbove_def by simp
    then show ?thesis using None N by (simp add: pickRegister_def)
  next
    case (Some h)
    then obtain i where i: "i < ?N" "bit rmask i" "h = registers c ! i"
       "registerCost c (registers c ! i) < 5"
      using b unfolding bestAbove_def by auto
    then have "\<not> (\<forall>j < ?N. bit rmask j \<longrightarrow> 5 \<le> registerCost c (registers c ! j))"
      by (auto simp: not_le)
    then show ?thesis using Some N i by (auto simp: pickRegister_def)
  qed
qed

lemma costExample_simps:
  "registerCost costExample 4 = 6" "spec_cost costExample 4 = 8"
  by (simp_all add: costExample_def registerCost_def spec_cost_def exampleContext_register
      Register_new_def used_def usedExclusively_def)

lemma pickExample_costs:
  "registerCost pickExample 4 = 6" "registerCost pickExample 5 = 6"
  "registerCost pickExample 6 = 0" "registerCost pickExample 7 = 3" "registerCost pickExample 3 = 0"
  by (simp_all add: pickExample_def registerCost_def exampleContext_register
      Register_new_def used_def usedExclusively_def findSite_def)

lemma pickExample_state:
  "unat (registerCount (arch pickExample)) = 8" "registers pickExample = [0, 1, 2, 3, 4, 5, 6, 7]"
  by (simp_all add: pickExample_def exampleContext_state exampleArch_def)

lemma pickRegister_loop_numeral:
  "pickRegister_loop c rmask (numeral k) register' cost =
     (if (push_bit (pred_numeral k) 1 AND rmask) \<noteq> 0
      then let r = registers c ! pred_numeral k in
           if push_bit (pred_numeral k) 1 = rmask then Some r
           else let myCost = registerCost c r in
                if myCost < cost then pickRegister_loop c rmask (pred_numeral k) (Some r) myCost
                else pickRegister_loop c rmask (pred_numeral k) register' cost
      else pickRegister_loop c rmask (pred_numeral k) register' cost)"
  by (simp add: numeral_eq_Suc)

lemma pickExample_picks:
  "pickRegister pickExample 0x10 = Ok 4"
  "pickRegister pickExample 0x30 = Abort"
  "pickRegister pickExample 0xC8 = Ok 6"
  "pickRegister pickExample 0x60 = Ok 6"
  by (simp_all add: pickRegister_def pickExample_state pickExample_costs pickRegister_loop_numeral)


text \<open>
  C1, as the code has it. The cost of a register is 6 when it is reserved or frozen and
  nothing is added to that; otherwise it is (used ? 1 : 0) + (usedExclusively ? 2 : 0) +
  (refCount > 0 ? 2 : 0). Whenever \<^verbatim>\<open>pickRegister\<close> returns, the register is a candidate of
  the mask of minimum cost, and of the candidates of that cost the one with the highest
  number. It does return when there are at most 32 registers and some candidate costs less
  than 5.
\<close>

theorem C1_cost_and_pick:
  "registerCost c r =
     (if reserved (registerStore c r) \<or> freezeCount (registerStore c r) \<noteq> 0 then 6
      else (if used c r then 1 else 0) + (if usedExclusively c r then 2 else 0)
           + (if refCount (registerStore c r) \<noteq> 0 then 2 else 0)) \<and>
   (pickRegister c rmask = Ok g \<longrightarrow>
      (\<exists>i < unat (registerCount (arch c)). g = registers c ! i \<and> bit rmask i \<and>
           (\<forall>j < unat (registerCount (arch c)). bit rmask j \<longrightarrow>
              registerCost c g \<le> registerCost c (registers c ! j) \<and>
              (registerCost c (registers c ! j) = registerCost c g \<longrightarrow> j \<le> i)))) \<and>
   (unat (registerCount (arch c)) \<le> 32 \<and> k < unat (registerCount (arch c)) \<and> bit rmask k \<and>
    registerCost c (registers c ! k) < 5 \<longrightarrow> (\<exists>g. pickRegister c rmask = Ok g))"
  using registerCost_cases [of c r] pick_Ok_best [of c rmask g] pick_returns [of c k rmask]
  by blast

theorem C1_witness:
  "pickRegister pickExample 0xC8 = Ok 6 \<and>
   registerCost pickExample 6 = 0 \<and> registerCost pickExample 3 = 0 \<and>
   registerCost pickExample 7 = 3 \<and> registerCost pickExample 6 \<le> registerCost pickExample 7 \<and>
   (\<exists>g. pickRegister pickExample 0x60 = Ok g)"
proof -
  have "bit (0x60 :: u32) 6" by simp
  then have "\<exists>g. pickRegister pickExample 0x60 = Ok g"
    using C1_cost_and_pick [of pickExample 0 "0x60" 0 6]
    by (simp add: pickExample_state pickExample_costs)
  moreover have "registerCost pickExample 6 \<le> registerCost pickExample 7"
  proof -
    have "\<exists>i < 8. (6 :: nat) = registers pickExample ! i \<and> bit (0xC8 :: u32) i \<and>
           (\<forall>j < 8. bit (0xC8 :: u32) j \<longrightarrow>
              registerCost pickExample 6 \<le> registerCost pickExample (registers pickExample ! j) \<and>
              (registerCost pickExample (registers pickExample ! j) = registerCost pickExample 6 \<longrightarrow> j \<le> i))"
      using C1_cost_and_pick [of pickExample 0 "0xC8" 6 0]
      by (simp add: pickExample_state(1) pickExample_picks)
    then obtain i where a: "\<forall>j < 8. bit (0xC8 :: u32) j \<longrightarrow>
              registerCost pickExample 6 \<le> registerCost pickExample (registers pickExample ! j) \<and>
              (registerCost pickExample (registers pickExample ! j) = registerCost pickExample 6 \<longrightarrow> j \<le> i)"
      by blast
    show ?thesis using a [rule_format, of 7] by (simp add: pickExample_state)
  qed
  ultimately show ?thesis by (simp add: pickExample_picks pickExample_costs)
qed

text \<open>
  The formula of the claim adds the four terms unconditionally. The stack-pointer register
  of \<open>costExample\<close> is reserved and referenced: the code gives it cost 6, the formula 8.
\<close>

theorem C1_counterexample:
  "registerCost costExample 4 \<noteq> spec_cost costExample 4 \<and>
   registerCost costExample 4 = 6 \<and> spec_cost costExample 4 = 8"
  by (simp add: costExample_simps)

text \<open>
  C10. A mask that names exactly one register makes \<^verbatim>\<open>pickRegister\<close> return that register
  whatever its state (its cost is never computed). For any other mask a register is only
  returned when its cost is below 5, and the compilation aborts exactly when every
  candidate costs 5 or more; a reserved or frozen register costs 6.
\<close>

theorem C10_single_or_threshold:
  "(i < unat (registerCount (arch c)) \<and> unat (registerCount (arch c)) \<le> 32 \<longrightarrow>
      pickRegister c (push_bit i 1) = Ok (registers c ! i)) \<and>
   (unat (registerCount (arch c)) \<le> 32 \<and>
    (\<forall>i < unat (registerCount (arch c)). rmask \<noteq> push_bit i 1) \<longrightarrow>
      (pickRegister c rmask = Ok g \<longrightarrow> registerCost c g < 5) \<and>
      (pickRegister c rmask = Abort \<longleftrightarrow>
         (\<forall>j < unat (registerCount (arch c)). bit rmask j \<longrightarrow>
            5 \<le> registerCost c (registers c ! j)))) \<and>
   (reserved (registerStore c r) \<or> freezeCount (registerStore c r) \<noteq> 0 \<longrightarrow>
      registerCost c r = 6)"
  using pick_single [of i c] pick_multi [of c rmask g]
  by (simp add: registerCost_def)

theorem C10_witness:
  "pickRegister pickExample (push_bit 4 1) = Ok 4 \<and> reserved (registerStore pickExample 4) \<and>
   registerCost pickExample 4 = 6 \<and>
   pickRegister pickExample (push_bit 5 1) = Ok 5 \<and> freezeCount (registerStore pickExample 5) = 1 \<and>
   pickRegister pickExample 0x30 = Abort \<and>
   pickRegister pickExample 0xC8 = Ok 6 \<and> registerCost pickExample 6 < 5"
proof -
  have s: "pickRegister pickExample (push_bit 4 1) = Ok 4"
      "pickRegister pickExample (push_bit 5 1) = Ok 5"
    using C10_single_or_threshold [of 4 pickExample] C10_single_or_threshold [of 5 pickExample]
    by (simp_all add: pickExample_state)
  have m: "\<forall>i < 8. (0xC8 :: u32) \<noteq> push_bit i 1"
  proof (intro allI impI notI)
    fix i :: nat
    assume i: "i < 8" and e: "(0xC8 :: u32) = push_bit i 1"
    have "bit (push_bit i 1 :: u32) 3" "bit (push_bit i 1 :: u32) 6"
      unfolding e [symmetric] by simp_all
    then show False using i by (simp add: single_bit)
  qed
  have c: "registerCost pickExample 6 < 5"
    using C10_single_or_threshold [of 0 pickExample "0xC8" 6] m
    by (simp add: pickExample_state pickExample_picks)
  have r: "reserved (registerStore pickExample 4)" "freezeCount (registerStore pickExample 5) = 1"
    by (simp_all add: pickExample_def exampleContext_register Register_new_def)
  show ?thesis using s c r by (simp add: pickExample_picks pickExample_costs)
qed

theorem C10_counterexample:
  "filter (bit (0x120 :: u32)) [0 ..< unat (registerCount (arch pickExample))] = [5] \<and>
   freezeCount (registerStore pickExample 5) = 1 \<and>
   pickRegister pickExample 0x120 = Abort"
  by code_simp


subsection \<open>Buddy rings\<close>























lemma bindR_Ok_iff: "bindR m f = Ok y \<longleftrightarrow> (\<exists>x. m = Ok x \<and> f x = Ok y)"
  by (cases m) (simp_all add: bindR_def)

lemma Site_match_ctx:
  "Site_match c s tmask rmask fi = Ok (m, c') \<Longrightarrow> c' = c \<or> Site_sync c s = Ok c'"
proof (cases "siteStore c s")
  case (ConstantSite p)
  then show "Site_match c s tmask rmask fi = Ok (m, c') \<Longrightarrow> ?thesis"
    by (simp add: Site_match_def)
next
  case (AddressSite p)
  then show "Site_match c s tmask rmask fi = Ok (m, c') \<Longrightarrow> ?thesis"
    by (simp add: Site_match_def)
next
  case (RegisterSite rm low high)
  then show "Site_match c s tmask rmask fi = Ok (m, c') \<Longrightarrow> ?thesis"
    by (auto simp: Site_match_def bindR_Ok_iff split: if_splits)
next
  case (MemorySite base index v0)
  assume a: "Site_match c s tmask rmask fi = Ok (m, c')"
  show ?thesis
  proof (cases "typeBit tmask MemoryOperand")
    case False
    then show ?thesis using a MemorySite by (simp add: Site_match_def)
  next
    case True
    then obtain c1 where c1: "Site_sync c s = Ok c1"
      and r: "(case siteStore c1 s of
                     MemorySite b i v \<Rightarrow>
                       (if m_base v = arch_stack (arch c1)
                        then bindR (assertR (m_index v = NoRegister)) (\<lambda>_.
                               Ok (fi = AnyFrameIndex \<or>
                                   (fi \<noteq> NoFrameIndex \<and> frameIndexToOffset c1 fi = m_offset v), c1))
                        else Ok (True, c1))
                   | _ \<Rightarrow> Fault) = Ok (m, c')"
      using a MemorySite by (auto simp: Site_match_def bindR_Ok_iff)
    have "c' = c1"
      using r by (cases "siteStore c1 s") (auto simp: bindR_Ok_iff split: if_splits)
    then show ?thesis using c1 by simp
  qed
qed


lemma Site_copyCost_ctx:
  "Site_copyCost c s t = Ok (v, c') \<Longrightarrow> c' = c \<or> Site_sync c s = Ok c'"
  by (cases "siteStore c s") (auto simp: Site_copyCost_def bindR_Ok_iff)















lemma Site_sync_registers:
  "Site_sync c s = Ok c' \<Longrightarrow> registerStore c' = registerStore c"
  by (auto simp: Site_sync_def assertR_def bindR_def split: Site.splits option.splits if_splits)

lemma Site_match_registers:
  "Site_match c s tmask rmask fi = Ok (m, c') \<Longrightarrow> registerStore c' = registerStore c"
  using Site_match_ctx [of c s tmask rmask fi m c'] Site_sync_registers [of c s c'] by auto

lemma Site_copyCost_registers:
  "Site_copyCost c s t = Ok (v, c') \<Longrightarrow> registerStore c' = registerStore c"
  using Site_copyCost_ctx [of c s t v c'] Site_sync_registers [of c s c'] by auto




lemma ringExample_state:
  "valueStore ringExample 0 = (Value_new 0 None None) \<lparr> buddy := Suc 0 \<rparr>"
  "valueStore ringExample (Suc 0) = (Value_new 1 (Some 5) None) \<lparr> buddy := 0 \<rparr>"
  "siteStore ringExample 5 = ConstantSite (ResolvedPromise 3)"
  "valueCount ringExample = Suc (Suc 0)"
  by (simp_all add: ringExample_def)







lemma ringExample_accepts: "accepts ringExample 5 (NOT 0) (NOT 0) AnyFrameIndex"
  by (simp add: accepts_def Site_match_def typeBit_def ringExample_state)




subsection \<open>What the allocator and the events leave alone\<close>

lemmas allocator_defs =
  addSite_def Site_acquire_def validate_def acquire_def replace_def trySteal_def
  trySteal_Register_def trySteal_FrameResource_def move_def acquireFrameIndex_def

lemma allocator_0:
  "addSite 0 c stack locals sz v s = Diverges"
  "Site_acquire 0 c this stack locals sz vo = Diverges"
  "validate 0 c rmask stack locals sz vo site current = Diverges"
  "acquire 0 c rmask stack locals sz vo so = Diverges"
  "replace 0 c stack locals r = Diverges"
  "trySteal 0 c site v sz stack locals = Diverges"
  "trySteal_Register 0 c r stack locals = Diverges"
  "trySteal_FrameResource 0 c i stack locals = Diverges"
  "move 0 c stack locals sz v src dst = Diverges"
  "acquireFrameIndex 0 c fi stack locals sz vo site recurse = Diverges"
  by (simp_all add: allocator_defs)

lemma allocator_Suc:
  "addSite (Suc n) = addSite_body (Site_acquire n)"
  "Site_acquire (Suc n) = Site_acquire_body (validate n) (acquireFrameIndex n)"
  "validate (Suc n) = validate_body (acquire n)"
  "acquire (Suc n) = acquire_body (replace n) (trySteal_Register n)"
  "replace (Suc n) = replace_body (acquire n)"
  "trySteal (Suc n) = trySteal_body (move n)"
  "trySteal_Register (Suc n) = trySteal_Register_body (trySteal n)"
  "trySteal_FrameResource (Suc n) = trySteal_FrameResource_body (trySteal n)"
  "move (Suc n) = move_body (addSite n)"
  "acquireFrameIndex (Suc n) =
     acquireFrameIndex_body (acquireFrameIndex n) (trySteal_FrameResource n)"
  by (simp_all add: allocator_defs)

lemma control_update:
  "control (c \<lparr> registerStore := rs \<rparr>) = control c"
  "control (c \<lparr> valueStore := vs \<rparr>) = control c"
  "control (c \<lparr> siteStore := ss \<rparr>) = control c"
  "control (c \<lparr> readStore := ds \<rparr>) = control c"
  "control (c \<lparr> frameResources := fs \<rparr>) = control c"
  "control (c \<lparr> registers := gs \<rparr>) = control c"
  "control (c \<lparr> availableRegisterCount := k \<rparr>) = control c"
  "control (c \<lparr> siteCount := n \<rparr>) = control c"
  "control (c \<lparr> code := is \<rparr>) = control c"
  "control (c \<lparr> logicalCode := ls \<rparr>) = control c"
  "control (c \<lparr> c_stack := st \<rparr>) = control c"
  "control (c \<lparr> c_locals := lo \<rparr>) = control c"
  "control (c \<lparr> pass := pa \<rparr>) = control c"
  "control (c \<lparr> readCount := rc \<rparr>) = control c"
  "control (c \<lparr> valueCount := vc \<rparr>) = control c"
  by (simp_all add: control_def)

lemma control_fields:
  assumes "control c' = control c"
  shows "arch c' = arch c" "constantCompare c' = constantCompare c"
    "machineCode c' = machineCode c" "localFootprint c' = localFootprint c"
    "parameterFootprint c' = parameterFootprint c" "alignedFrameSize c' = alignedFrameSize c"
  using assms by (simp_all add: control_def)

lemma freeze_control: "freeze c r = Ok c' \<Longrightarrow> control c' = control c"
  by (auto simp: freeze_Ok control_update)

lemma thaw_control: "thaw c r = Ok c' \<Longrightarrow> control c' = control c"
  by (auto simp: thaw_Ok control_update)

lemma release_control: "control (release c r) = control c"
  by (simp add: release_def control_update)

lemma increment_control: "increment c i = Ok (r, c') \<Longrightarrow> control c' = control c"
  by (auto simp: increment_def bindR_Ok_iff control_update)

lemma decrement_control: "decrement c r = Ok c' \<Longrightarrow> control c' = control c"
  by (auto simp: decrement_def bindR_Ok_iff control_update)

lemma clearFrameResource_control: "control (clearFrameResource c i) = control c"
  by (simp add: clearFrameResource_def control_update)

lemma releaseFrameIndex_control:
  "releaseFrameIndex c fi recurse = Ok c' \<Longrightarrow> control c' = control c"
  by (auto simp: releaseFrameIndex_def bindR_Ok_iff clearFrameResource_control
           split: if_splits)

lemma Site_release_control: "Site_release c s = Ok c' \<Longrightarrow> control c' = control c"
  by (cases "siteStore c s")
     (auto simp: Site_release_def bindR_Ok_iff release_control Let_def
           dest!: releaseFrameIndex_control decrement_control
           split: option.splits if_splits)



lemma Site_sync_control: "Site_sync c s = Ok c' \<Longrightarrow> control c' = control c"
  by (cases "siteStore c s")
     (auto simp: Site_sync_def bindR_Ok_iff control_update split: option.splits)



lemma Site_asAssemblerOperand_ctx:
  "Site_asAssemblerOperand c s = Ok (op, c') \<Longrightarrow> c' = c \<or> Site_sync c s = Ok c'"
proof (cases "siteStore c s")
  case (MemorySite b i v)
  assume "Site_asAssemblerOperand c s = Ok (op, c')"
  then obtain x where x: "Site_sync c s = Ok x"
      "(case siteStore x s of MemorySite b i v \<Rightarrow> Ok (MemoryOp v, x) | _ \<Rightarrow> Fault) = Ok (op, c')"
    using MemorySite by (auto simp: Site_asAssemblerOperand_def bindR_Ok_iff)
  from x(2) have "x = c'" by (cases "siteStore x s") auto
  with x(1) show ?thesis by simp
qed (auto simp: Site_asAssemblerOperand_def bindR_Ok_iff)

lemma Site_asAssemblerOperand_control:
  "Site_asAssemblerOperand c s = Ok (op, c') \<Longrightarrow> control c' = control c"
  using Site_asAssemblerOperand_ctx [of c s op c'] Site_sync_control [of c s c'] by auto


lemma apply2_control: "apply2 c op sz1 s1 sz2 s2 = Ok c' \<Longrightarrow> control c' = control c"
  by (auto simp: apply2_def bindR_Ok_iff control_update dest!: Site_asAssemblerOperand_control)

lemma newSite_control: "newSite c s = (i, c') \<Longrightarrow> control c' = control c"
  by (auto simp: newSite_def control_def)

lemma freeRegisterSite_control: "freeRegisterSite c m = (i, c') \<Longrightarrow> control c' = control c"
  by (simp add: freeRegisterSite_def newSite_control)

lemma frameSite_control: "frameSite c fi = Ok (i, c') \<Longrightarrow> control c' = control c"
  by (auto simp: frameSite_def memorySite_def bindR_Ok_iff dest!: newSite_control)



lemma unlinkSite_control: "control (unlinkSite c p) = control c"
  by (simp add: unlinkSite_def control_update)

lemma SiteIterator_remove_control:
  "SiteIterator_remove c it = Ok (it', c') \<Longrightarrow> control c' = control c"
  by (auto simp: SiteIterator_remove_def bindR_Ok_iff Let_def unlinkSite_control
           dest!: Site_release_control split: option.splits)

lemma removeSite_loop_control:
  "removeSite_loop n c it s = Ok c' \<Longrightarrow> control c' = control c"
proof (induction n arbitrary: it)
  case 0
  then show ?case by simp
next
  case (Suc n)
  from Suc.prems show ?case
    by (auto simp: bindR_Ok_iff split: if_splits
             dest!: SiteIterator_remove_control Suc.IH)
qed

lemma removeSite_control: "removeSite c v s = Ok c' \<Longrightarrow> control c' = control c"
  by (auto simp: removeSite_def bindR_Ok_iff simp del: removeSite_loop.simps
           dest!: removeSite_loop_control)

lemma clearSites_loop_control: "clearSites_loop c ss = Ok c' \<Longrightarrow> control c' = control c"
proof (induction ss arbitrary: c)
  case Nil
  then show ?case by simp
next
  case (Cons s ss)
  then obtain c1 where "Site_release c s = Ok c1" "clearSites_loop c1 ss = Ok c'"
    by (auto simp: bindR_Ok_iff)
  then show ?case using Cons.IH [of c1] Site_release_control [of c s c1] by simp
qed

lemma clearSites_control: "clearSites c v = Ok c' \<Longrightarrow> control c' = control c"
  by (auto simp: clearSites_def bindR_Ok_iff control_update dest!: clearSites_loop_control)





lemma valid_control: "valid c r = Ok (b, c') \<Longrightarrow> control c' = control c"
  by (auto simp: valid_def bindR_Ok_iff control_update split: option.splits)

lemma intersect_control: "intersect c r p = Ok (b, q, c') \<Longrightarrow> control c' = control c"
  by (auto simp: intersect_def bindR_Ok_iff control_update)

lemma live_loop_control: "live_loop n c v p = Ok (b, c') \<Longrightarrow> control c' = control c"
proof (induction n arbitrary: c p)
  case 0
  then show ?case by simp
next
  case (Suc n)
  from Suc.prems show ?case
    by (auto simp: bindR_Ok_iff split: if_splits dest!: Suc.IH valid_control)
qed

lemma live_control: "live c v = Ok (b, c') \<Longrightarrow> control c' = control c"
  by (auto simp: live_def bindR_Ok_iff split: if_splits
           dest!: live_loop_control valid_control)

lemma nextRead_control: "nextRead c e v = Ok c' \<Longrightarrow> control c' = control c"
  by (auto simp: nextRead_def bindR_Ok_iff Let_def control_update
           split: option.splits if_splits dest!: live_control clearSites_control)


lemma setRegister_control: "control (setRegister c r sz v s) = control c"
  by (simp add: setRegister_def control_update)

lemma setFrameResource_control: "control (setFrameResource c i sz v s) = control c"
  by (simp add: setFrameResource_def control_update)

lemma swap_control: "swap c a b = Ok c' \<Longrightarrow> control c' = control c"
  by (auto simp: swap_def bindR_Ok_iff Let_def control_def split: if_splits)

lemma saveSite_control: "saveSite c v stack locals = Ok (d, c') \<Longrightarrow> control c' = control c"
  by (auto simp: saveSite_def bindR_Ok_iff split: option.splits if_splits
           dest!: frameSite_control intersect_control)

lemma addSite_body_control:
  assumes "\<And>c s st lo sz v c'. A c s st lo sz v = Ok c' \<Longrightarrow> control c' = control c"
  shows "addSite_body A c stack locals sz v s = Ok c' \<Longrightarrow> control c' = control c"
  by (auto simp: addSite_body_def bindR_Ok_iff control_update split: if_splits dest!: assms)

lemma Site_acquire_body_control:
  assumes "\<And>c m st lo sz v s cur r c'. V c m st lo sz v s cur = Ok (r, c') \<Longrightarrow> control c' = control c"
    and "\<And>c fi st lo sz v s rc c'. F c fi st lo sz v s rc = Ok c' \<Longrightarrow> control c' = control c"
  shows "Site_acquire_body V F c this stack locals sz v = Ok c' \<Longrightarrow> control c' = control c"
  by (cases "siteStore c this")
     (auto simp: Site_acquire_body_def bindR_Ok_iff control_update Let_def
           split: if_splits
           dest!: assms freeze_control thaw_control increment_control)

lemma validate_body_control:
  assumes "\<And>c m st lo sz v s r c'. A c m st lo sz v s = Ok (r, c') \<Longrightarrow> control c' = control c"
  shows "validate_body A c rmask stack locals sz v site current = Ok (r, c')
         \<Longrightarrow> control c' = control c"
  by (auto simp: validate_body_def bindR_Ok_iff control_update Let_def setRegister_control
                 release_control
           split: if_splits option.splits dest!: assms)

lemma acquire_body_control:
  assumes "\<And>c st lo r r' c'. R c st lo r = Ok (r', c') \<Longrightarrow> control c' = control c"
    and "\<And>c r st lo b c'. T c r st lo = Ok (b, c') \<Longrightarrow> control c' = control c"
  shows "acquire_body R T c rmask stack locals sz v site = Ok (r, c')
         \<Longrightarrow> control c' = control c"
  by (auto simp: acquire_body_def bindR_Ok_iff setRegister_control
           split: if_splits option.splits dest!: assms)

lemma replace_body_control:
  assumes "\<And>c m st lo sz v s r c'. A c m st lo sz v s = Ok (r, c') \<Longrightarrow> control c' = control c"
  shows "replace_body A c stack locals r = Ok (r', c') \<Longrightarrow> control c' = control c"
  by (auto simp: replace_body_def bindR_Ok_iff
           split: if_splits option.splits
           dest!: assms freeze_control thaw_control swap_control)

lemma trySteal_body_control:
  assumes "\<And>c st lo sz v s d c'. M c st lo sz v s d = Ok c' \<Longrightarrow> control c' = control c"
  shows "trySteal_body M c site v sz stack locals = Ok (b, c') \<Longrightarrow> control c' = control c"
  by (auto simp: trySteal_body_def bindR_Ok_iff
           split: list.splits option.splits
           dest!: assms saveSite_control removeSite_control)

lemma trySteal_Register_body_control:
  assumes "\<And>c s v sz st lo b c'. T c s v sz st lo = Ok (b, c') \<Longrightarrow> control c' = control c"
  shows "trySteal_Register_body T c r stack locals = Ok (b, c') \<Longrightarrow> control c' = control c"
  by (auto simp: trySteal_Register_body_def bindR_Ok_iff option_Fault_Ok
           dest!: assms live_control)

lemma trySteal_FrameResource_body_control:
  assumes "\<And>c s v sz st lo b c'. T c s v sz st lo = Ok (b, c') \<Longrightarrow> control c' = control c"
  shows "trySteal_FrameResource_body T c i stack locals = Ok (b, c')
         \<Longrightarrow> control c' = control c"
  by (auto simp: trySteal_FrameResource_body_def bindR_Ok_iff option_Fault_Ok
           dest!: assms)

lemma move_body_control:
  assumes "\<And>c st lo sz v s c'. A c st lo sz v s = Ok c' \<Longrightarrow> control c' = control c"
  shows "move_body A c stack locals sz v src dst = Ok c' \<Longrightarrow> control c' = control c"
  by (auto simp: move_body_def bindR_Ok_iff
           split: if_splits prod.splits
           dest!: assms apply2_control freeRegisterSite_control)

lemma acquireFrameIndex_body_control:
  assumes "\<And>c fi st lo sz v s rc c'. F c fi st lo sz v s rc = Ok c' \<Longrightarrow> control c' = control c"
    and "\<And>c i st lo b c'. T c i st lo = Ok (b, c') \<Longrightarrow> control c' = control c"
  shows "acquireFrameIndex_body F T c fi stack locals sz v site recurse = Ok c'
         \<Longrightarrow> control c' = control c"
  by (auto simp: acquireFrameIndex_body_def bindR_Ok_iff setFrameResource_control
           split: if_splits option.splits dest!: assms)


lemma allocator_control:
  "(\<forall>c st lo sz v s c'. addSite n c st lo sz v s = Ok c' \<longrightarrow> control c' = control c) \<and>
   (\<forall>c s st lo sz v c'. Site_acquire n c s st lo sz v = Ok c' \<longrightarrow> control c' = control c) \<and>
   (\<forall>c m st lo sz v s cur r c'.
      validate n c m st lo sz v s cur = Ok (r, c') \<longrightarrow> control c' = control c) \<and>
   (\<forall>c m st lo sz v s r c'. acquire n c m st lo sz v s = Ok (r, c') \<longrightarrow> control c' = control c) \<and>
   (\<forall>c st lo r r' c'. replace n c st lo r = Ok (r', c') \<longrightarrow> control c' = control c) \<and>
   (\<forall>c s v sz st lo b c'. trySteal n c s v sz st lo = Ok (b, c') \<longrightarrow> control c' = control c) \<and>
   (\<forall>c r st lo b c'. trySteal_Register n c r st lo = Ok (b, c') \<longrightarrow> control c' = control c) \<and>
   (\<forall>c i st lo b c'.
      trySteal_FrameResource n c i st lo = Ok (b, c') \<longrightarrow> control c' = control c) \<and>
   (\<forall>c st lo sz v s d c'. move n c st lo sz v s d = Ok c' \<longrightarrow> control c' = control c) \<and>
   (\<forall>c fi st lo sz v s rc c'.
      acquireFrameIndex n c fi st lo sz v s rc = Ok c' \<longrightarrow> control c' = control c)"
proof (induction n)
  case 0
  show ?case by (simp add: allocator_0)
next
  case (Suc n)
  note ih1 = Suc.IH [THEN conjunct1, rule_format]
  note ih2 = Suc.IH [THEN conjunct2, THEN conjunct1, rule_format]
  note ih3 = Suc.IH [THEN conjunct2, THEN conjunct2, THEN conjunct1, rule_format]
  note ih4 = Suc.IH [THEN conjunct2, THEN conjunct2, THEN conjunct2, THEN conjunct1, rule_format]
  note ih5 = Suc.IH [THEN conjunct2, THEN conjunct2, THEN conjunct2, THEN conjunct2, THEN conjunct1, rule_format]
  note ih6 = Suc.IH [THEN conjunct2, THEN conjunct2, THEN conjunct2, THEN conjunct2, THEN conjunct2, THEN conjunct1, rule_format]
  note ih7 = Suc.IH [THEN conjunct2, THEN conjunct2, THEN conjunct2, THEN conjunct2, THEN conjunct2, THEN conjunct2, THEN conjunct1, rule_format]
  note ih8 = Suc.IH [THEN conjunct2, THEN conjunct2, THEN conjunct2, THEN conjunct2, THEN conjunct2, THEN conjunct2, THEN conjunct2, THEN conjunct1, rule_format]
  note ih9 = Suc.IH [THEN conjunct2, THEN conjunct2, THEN conjunct2, THEN conjunct2, THEN conjunct2, THEN conjunct2, THEN conjunct2, THEN conjunct2, THEN conjunct1, rule_format]
  note ih10 = Suc.IH [THEN conjunct2, THEN conjunct2, THEN conjunct2, THEN conjunct2, THEN conjunct2, THEN conjunct2, THEN conjunct2, THEN conjunct2, THEN conjunct2, rule_format]
  show ?case
    unfolding allocator_Suc
    apply (intro conjI allI impI)
             apply (erule addSite_body_control [rotated], erule ih2)
            apply (erule Site_acquire_body_control [rotated 2], erule ih3, erule ih10)
           apply (erule validate_body_control [rotated], erule ih4)
          apply (erule acquire_body_control [rotated 2], erule ih5, erule ih7)
         apply (erule replace_body_control [rotated], erule ih4)
        apply (erule trySteal_body_control [rotated], erule ih9)
       apply (erule trySteal_Register_body_control [rotated], erule ih6)
      apply (erule trySteal_FrameResource_body_control [rotated], erule ih6)
     apply (erule move_body_control [rotated], erule ih1)
    apply (erule acquireFrameIndex_body_control [rotated 2], erule ih10, erule ih8)
    done
qed

lemmas Site_acquire_control = allocator_control [THEN conjunct2, THEN conjunct1, rule_format]
lemmas trySteal_control = allocator_control [THEN conjunct2, THEN conjunct2, THEN conjunct2, THEN conjunct2, THEN conjunct2, THEN conjunct1, rule_format]






















subsection \<open>Compare and Branch\<close>

lemma mapR_simps: "mapR f (Ok x) = Ok (f x)" "mapR f Abort = Abort" "mapR f Fault = Fault"
  "mapR f Diverges = Diverges"
  by (simp_all add: mapR_def bindR_simps)

lemma mapR_Ok_iff: "mapR f r = Ok y \<longleftrightarrow> (\<exists>x. r = Ok x \<and> y = f x)"
  by (cases r) (auto simp: mapR_simps)









lemma releaseFrameIndex_code: "releaseFrameIndex c fi recurse = Ok c' \<Longrightarrow> code c' = code c"
  by (auto simp: releaseFrameIndex_def bindR_Ok_iff clearFrameResource_def split: if_splits)

lemma decrement_code: "decrement c r = Ok c' \<Longrightarrow> code c' = code c"
  by (auto simp: decrement_def bindR_Ok_iff)

lemma Site_release_code: "Site_release c s = Ok c' \<Longrightarrow> code c' = code c"
  by (cases "siteStore c s")
     (auto simp: Site_release_def bindR_Ok_iff release_def Let_def
           dest!: releaseFrameIndex_code decrement_code
           split: option.splits if_splits)

lemma clearSites_loop_code: "clearSites_loop c ss = Ok c' \<Longrightarrow> code c' = code c"
proof (induction ss arbitrary: c)
  case Nil
  then show ?case by simp
next
  case (Cons s ss)
  from Cons.prems show ?case
    by (auto simp: bindR_Ok_iff dest!: Cons.IH Site_release_code)
qed

lemma clearSites_code: "clearSites c v = Ok c' \<Longrightarrow> code c' = code c"
  by (auto simp: clearSites_def bindR_Ok_iff dest!: clearSites_loop_code)

lemma valid_code: "valid c r = Ok (b, c') \<Longrightarrow> code c' = code c"
  by (auto simp: valid_def bindR_Ok_iff split: option.splits)

lemma live_loop_code: "live_loop n c v p = Ok (b, c') \<Longrightarrow> code c' = code c"
proof (induction n arbitrary: c p)
  case 0
  then show ?case by simp
next
  case (Suc n)
  from Suc.prems show ?case
    by (auto simp: bindR_Ok_iff split: if_splits dest!: Suc.IH valid_code)
qed

lemma live_code: "live c v = Ok (b, c') \<Longrightarrow> code c' = code c"
  by (auto simp: live_def bindR_Ok_iff split: if_splits dest!: live_loop_code valid_code)

lemma nextRead_code: "nextRead c e v = Ok c' \<Longrightarrow> code c' = code c"
  by (auto simp: nextRead_def bindR_Ok_iff Let_def
           split: option.splits if_splits dest!: live_code clearSites_code)

lemma apply1_code:
  "apply1 c op sz s = Ok c' \<Longrightarrow>
   mapR (\<lambda>r. code c @ [Apply1 op sz (fst r)]) (Site_asAssemblerOperand c s) = Ok (code c')"
proof -
  assume "apply1 c op sz s = Ok c'"
  then obtain operand c1 where a: "Site_asAssemblerOperand c s = Ok (operand, c1)"
    and c': "c' = c1 \<lparr> code := code c1 @ [Apply1 op sz operand] \<rparr>"
    by (auto simp: apply1_def bindR_Ok_iff)
  have "code c1 = code c"
    using Site_asAssemblerOperand_ctx [OF a]
    by (auto simp: Site_sync_def bindR_Ok_iff split: Site.splits option.splits)
  with a c' show ?thesis by (simp add: mapR_simps)
qed

lemma branchDecision_outcome:
  "conditional type \<Longrightarrow>
   branchDecision (outcomeOf d) type
     = (conditionHolds type d, if conditionHolds type d then Jump else type)"
  by (cases type) (auto simp: conditional_def branchDecision_def outcomeOf_def)

lemma branchDecision_none: "branchDecision CompareNone type = (True, type)"
  by (simp add: branchDecision_def)

lemma BranchEvent_compile_code:
  assumes "BranchEvent_compile c e type address = Ok c'"
    and "branchDecision (constantCompare c) type = (jump, t)"
  shows "Ok (code c') = (if jump then mapR (append (code c)) (branchCode c t address)
                          else Ok (code c))"
proof (cases jump)
  case True
  with assms obtain s c1 where s: "sourceOf c address = Ok s"
    and a: "apply1 c t (BytesPerWord (arch c)) s = Ok c1"
    and n: "nextRead c1 (Some (e_this e)) address = Ok c'"
    by (auto simp: BranchEvent_compile_def bindR_Ok_iff)
  from apply1_code [OF a] obtain r where r: "Site_asAssemblerOperand c s = Ok r"
    and c1: "code c1 = code c @ [Apply1 t (BytesPerWord (arch c)) (fst r)]"
    by (auto simp: mapR_Ok_iff)
  show ?thesis using True s r c1 nextRead_code [OF n]
    by (simp add: branchCode_def bindR_simps mapR_simps)
next
  case False
  with assms have "nextRead c (Some (e_this e)) address = Ok c'"
    by (auto simp: BranchEvent_compile_def bindR_Ok_iff)
  from nextRead_code [OF this] False show ?thesis by simp
qed

lemma CompareEvent_compile_constants:
  assumes "CompareEvent_compile c e sz first second = Ok c'"
    and "findConstantSite c first = Some s1" and "findConstantSite c second = Some s2"
    and "constantValue c s1 = Ok a" and "constantValue c s2 = Ok b"
  shows "code c' = code c \<and> constantCompare c' = outcomeOf (sint (a - b))"
proof -
  define c0 where "c0 = c \<lparr> constantCompare :=
      (if a - b <s 0 then CompareLess else if 0 <s a - b then CompareGreater
       else CompareEqual) \<rparr>"
  from assms obtain c1 where n1: "nextRead c0 (Some (e_this e)) first = Ok c1"
    and n2: "nextRead c1 (Some (e_this e)) second = Ok c'"
    by (auto simp: CompareEvent_compile_def bindR_Ok_iff bindR_simps Let_def c0_def)
  have "constantCompare c0 = outcomeOf (sint (a - b))"
    by (simp add: c0_def outcomeOf_def word_sless_alt)
  moreover have "code c0 = code c" by (simp add: c0_def)
  moreover have "constantCompare c' = constantCompare c0"
    using nextRead_control [OF n1] nextRead_control [OF n2] by (simp add: control_def)
  moreover have "code c' = code c0"
    using nextRead_code [OF n1] nextRead_code [OF n2] by simp
  ultimately show ?thesis by simp
qed

lemma unresolved_aborts: "\<not> Promise_resolved c p \<Longrightarrow> Promise_value c p = Abort"
  by (cases p) (auto split: option.splits)

text \<open>
  C2 (as the code has it). Take a Compare whose operands both hold a constant site in
  their own list. A constant whose promise is unresolved has no value, and the method
  aborts. With two values the method emits nothing itself and records the outcome of
  their difference \<open>d\<close>, an \<^verbatim>\<open>int64_t\<close>. A conditional Branch compiled while that outcome is
  the recorded one emits the unconditional jump if \<open>d\<close> satisfies its condition and nothing
  otherwise; compiled while nothing is recorded it emits the conditional jump.
\<close>

theorem C2_constant_compare:
  assumes "findConstantSite c first = Some s1" and "findConstantSite c second = Some s2"
    and "BranchEvent_compile cb e' type address = Ok c2" and "conditional type"
  shows "(siteStore c s1 = ConstantSite p \<and> \<not> Promise_resolved c p \<longrightarrow>
            CompareEvent_compile c e sz first second = Abort) \<and>
         (constantValue c s1 = Ok a \<and> siteStore c s2 = ConstantSite p \<and>
          \<not> Promise_resolved c p \<longrightarrow>
            CompareEvent_compile c e sz first second = Abort) \<and>
         (constantValue c s1 = Ok a \<and> constantValue c s2 = Ok b \<and>
          CompareEvent_compile c e sz first second = Ok c1 \<longrightarrow>
            code c1 = code c \<and> constantCompare c1 = outcomeOf (sint (a - b)) \<and>
            (constantCompare cb = constantCompare c1 \<longrightarrow>
               Ok (code c2) =
                 (if conditionHolds type (sint (a - b))
                  then mapR (append (code cb)) (branchCode cb Jump address)
                  else Ok (code cb)))) \<and>
         (constantCompare cb = CompareNone \<longrightarrow>
            Ok (code c2) = mapR (append (code cb)) (branchCode cb type address))"
proof (intro conjI impI)
  assume "siteStore c s1 = ConstantSite p \<and> \<not> Promise_resolved c p"
  then have "constantValue c s1 = Abort"
    by (simp add: constantValue_def unresolved_aborts)
  then show "CompareEvent_compile c e sz first second = Abort"
    using assms(1,2) by (simp add: CompareEvent_compile_def bindR_simps)
next
  assume "constantValue c s1 = Ok a \<and> siteStore c s2 = ConstantSite p \<and>
          \<not> Promise_resolved c p"
  then have "constantValue c s1 = Ok a" "constantValue c s2 = Abort"
    by (simp_all add: constantValue_def unresolved_aborts)
  then show "CompareEvent_compile c e sz first second = Abort"
    using assms(1,2) by (simp add: CompareEvent_compile_def bindR_simps)
next
  assume h: "constantValue c s1 = Ok a \<and> constantValue c s2 = Ok b \<and>
             CompareEvent_compile c e sz first second = Ok c1"
  then have k: "code c1 = code c \<and> constantCompare c1 = outcomeOf (sint (a - b))"
    using CompareEvent_compile_constants [OF _ assms(1,2)] by blast
  then show "code c1 = code c" "constantCompare c1 = outcomeOf (sint (a - b))" by simp_all
  assume "constantCompare cb = constantCompare c1"
  with k have cc: "constantCompare cb = outcomeOf (sint (a - b))" by simp
  show "Ok (code c2) =
          (if conditionHolds type (sint (a - b))
           then mapR (append (code cb)) (branchCode cb Jump address)
           else Ok (code cb))"
    using BranchEvent_compile_code [OF assms(3), of "conditionHolds type (sint (a - b))"
        "if conditionHolds type (sint (a - b)) then Jump else type"]
      branchDecision_outcome [OF assms(4), of "sint (a - b)"] cc
    by simp
next
  assume "constantCompare cb = CompareNone"
  with BranchEvent_compile_code [OF assms(3), of True type]
  show "Ok (code c2) = mapR (append (code cb)) (branchCode cb type address)"
    by (simp add: branchDecision_none)
qed

theorem C2_witness:
  "mapR (\<lambda>c. (code c, constantCompare c)) (CompareEvent_compile foldExample compareExample 4 0 1)
     = Ok ([], CompareEqual) \<and>
   mapR code (BranchEvent_compile branchState (branchExample JumpIfEqual) JumpIfEqual 2)
     = Ok [Apply1 Jump 4 (ConstantOp (ResolvedPromise 64))] \<and>
   mapR (\<lambda>c. ()) (CompareEvent_compile poolExample compareExample 4 0 1) = Abort"
proof -
  have "mapR constantCompare (CompareEvent_compile foldExample compareExample 4 0 1)
          = Ok CompareEqual"
    by code_simp
  then obtain c1 where c1: "CompareEvent_compile foldExample compareExample 4 0 1 = Ok c1"
    and cc: "constantCompare c1 = CompareEqual"
    by (auto simp: mapR_Ok_iff)
  have "mapR (\<lambda>c. ()) (BranchEvent_compile branchState (branchExample JumpIfEqual) JumpIfEqual 2)
          = Ok ()"
    by code_simp
  then obtain c2 where
    c2: "BranchEvent_compile branchState (branchExample JumpIfEqual) JumpIfEqual 2 = Ok c2"
    by (auto simp: mapR_Ok_iff)
  have k1: "findConstantSite foldExample 0 = Some 0" by code_simp
  have k2: "findConstantSite foldExample 1 = Some 1" by code_simp
  have v1: "constantValue foldExample 0 = Ok 3" by code_simp
  have v2: "constantValue foldExample 1 = Ok 3" by code_simp
  have ct: "conditional JumpIfEqual" by (simp add: conditional_def)
  have st: "constantCompare branchState = constantCompare c1"
    using cc by (simp add: branchState_def)
  have bc: "branchCode branchState Jump 2 = Ok [Apply1 Jump 4 (ConstantOp (ResolvedPromise 64))]"
    by code_simp
  have cf: "code foldExample = []" "code branchState = []" by code_simp+
  have p1: "findConstantSite poolExample 0 = Some 0" by code_simp
  have p2: "findConstantSite poolExample 1 = Some 1" by code_simp
  have p3: "siteStore poolExample 0 = ConstantSite (PoolPromise 0)"
    by (simp add: poolExample_def)
  have p4: "\<not> Promise_resolved poolExample (PoolPromise 0)" by code_simp
  note t1 = C2_constant_compare [OF k1 k2 c2 ct, where a = 3 and b = 3 and e = compareExample
      and sz = 4 and ?c1.0 = c1]
  note t2 = C2_constant_compare [OF p1 p2 c2 ct, where p = "PoolPromise 0"
      and e = compareExample and sz = 4]
  have a: "code c1 = [] \<and> Ok (code c2) = Ok [Apply1 Jump 4 (ConstantOp (ResolvedPromise 64))]"
    using t1 c1 v1 v2 st bc cf by (simp add: mapR_simps)
  have b: "CompareEvent_compile poolExample compareExample 4 0 1 = Abort"
    using t2 p3 p4 by simp
  show ?thesis using a b c1 c2 cc by (simp add: mapR_simps)
qed

text \<open>
  Two constants from the constant pool have no value while the events are compiled: the
  Compare aborts.
\<close>

theorem C2_counterexample:
  "findConstantSite poolExample 0 = Some 0 \<and> findConstantSite poolExample 1 = Some 1 \<and>
   mapR (\<lambda>c. ()) (CompareEvent_compile poolExample compareExample 4 0 1) = Abort"
  by code_simp

subsection \<open>Stealing a site\<close>











end
